theory Spec2Isabelle
  imports Main "HOL-Library.Word"
begin

section \<open>Python values, exceptions and keyword arguments\<close>

text \<open>
  The exceptions that the modelled code or the standard-library calls it makes can raise.
  \<open>JobError\<close> stands for whatever exception a job body raises.
\<close>

datatype py_error =
  RuntimeError | TypeError | ValueError | KeyError | AttributeError | FileNotFoundError | JobError

text \<open>
  \<^verbatim>\<open>os.getenv(key, default)\<close> returns the string stored in the environment when the
  key is set, and the default object (here the integer 4) otherwise. The two kinds of
  value are kept apart, as Python keeps them apart.
\<close>

datatype py_value = PyInt int | PyStr string

definition os_getenv :: "(string \<rightharpoonup> string) \<Rightarrow> string \<Rightarrow> py_value \<Rightarrow> py_value" where
  "os_getenv env k dflt = (case env k of Some v \<Rightarrow> PyStr v | None \<Rightarrow> dflt)"

text \<open>
  Every function of \<^verbatim>\<open>bg_threads.py\<close> that takes a job is declared with
  \<^verbatim>\<open>*args, **kwargs\<close> and passes them on. Python binds the keyword arguments of a call
  to the callee's parameters by name: a keyword whose name is a parameter that the call
  also fills by position raises \<^verbatim>\<open>TypeError\<close> (got multiple values for argument) before
  the callee's body runs. The source fills every named parameter by position, so a call
  fails in this way exactly when one of its keyword names is a parameter name of the
  callee. \<open>kwargs\<close> are the keyword names of a call; the values, like the positional
  arguments, belong to the opaque callable value \<open>'f\<close> below.
\<close>

type_synonym kwargs = "string list"

definition kw_clash :: "string list \<Rightarrow> kwargs \<Rightarrow> bool" where
  "kw_clash params kw = (set kw \<inter> set params \<noteq> {})"

text \<open>Python objects that are shared by reference are held in a list, by address.\<close>

type_synonym address = nat

section \<open>The thread pool of the standard library\<close>

text \<open>
  What \<^verbatim>\<open>bg_threads.py\<close> hands to \<^verbatim>\<open>ThreadPoolExecutor.submit\<close>: a plain callable
  (\<^verbatim>\<open>submit_job\<close>), or one of the two wrappers together with the job identifier and the
  callable (\<^verbatim>\<open>_submit_job\<close>), each with the keyword arguments of the call. The callable
  and the values of its arguments are one opaque value of type \<open>'f\<close>.
\<close>

datatype ('id, 'f) work_item =
    Plain 'f kwargs
  | Run_pre_job 'id 'f kwargs
  | Run_post_job 'id 'f kwargs

text \<open>
  \<^verbatim>\<open>concurrent.futures.ThreadPoolExecutor\<close> as CPython 3.9 and later implement it:
  the bound on the number of worker threads, the \<^verbatim>\<open>_shutdown\<close> flag, the FIFO
  \<^verbatim>\<open>_work_queue\<close> and the items the workers are executing. Items cancelled by
  \<^verbatim>\<open>shutdown(cancel_futures=True)\<close> are dropped by CPython; they are kept in
  \<open>cancelled\<close> so that properties can speak about them.
\<close>

record ('id, 'f) thread_pool_executor =
  max_workers :: int
  shutdown_flag :: bool
  work_queue :: "('id, 'f) work_item list"
  running :: "('id, 'f) work_item list"
  cancelled :: "('id, 'f) work_item list"

text \<open>
  \<^verbatim>\<open>ThreadPoolExecutor.__init__\<close> evaluates \<^verbatim>\<open>max_workers <= 0\<close>: a string there raises
  \<^verbatim>\<open>TypeError\<close>, a non-positive integer raises \<^verbatim>\<open>ValueError\<close>.
\<close>

definition ThreadPoolExecutor_init :: "py_value \<Rightarrow> py_error + ('id, 'f) thread_pool_executor" where
  "ThreadPoolExecutor_init mw =
     (case mw of
        PyStr s \<Rightarrow> Inl TypeError
      | PyInt n \<Rightarrow>
          if n \<le> 0 then Inl ValueError
          else Inr \<lparr>max_workers = n, shutdown_flag = False, work_queue = [],
                    running = [], cancelled = []\<rparr>)"

text \<open>
  \<^verbatim>\<open>ThreadPoolExecutor.submit(self, fn, /, *args, **kwargs)\<close> raises \<^verbatim>\<open>RuntimeError\<close>
  (cannot schedule new futures after shutdown) once the flag is set; otherwise it appends
  the item to the queue and returns a \<^verbatim>\<open>Future\<close>, which the modelled code only ever
  tests for truth. Its two parameters are positional-only, so no keyword name can collide
  with them.
\<close>

definition tpe_submit ::
  "('id, 'f) work_item \<Rightarrow> ('id, 'f) thread_pool_executor \<Rightarrow> py_error + ('id, 'f) thread_pool_executor" where
  "tpe_submit w p =
     (if shutdown_flag p then Inl RuntimeError
      else Inr (p\<lparr>work_queue := work_queue p @ [w]\<rparr>))"

text \<open>
  \<^verbatim>\<open>ThreadPoolExecutor.shutdown(wait, cancel_futures)\<close> sets the flag and, with
  \<^verbatim>\<open>cancel_futures\<close>, drains the queue and cancels what it held. With \<^verbatim>\<open>wait\<close> it then
  joins the pool's worker threads. A worker thread exits once the flag is set, the queue
  is empty and its own item is done, so the join is over at once when the pool has no work
  left (\<open>Completed\<close>), and otherwise keeps the caller blocked (\<open>Joining\<close>) until it has
  none. When the caller is itself one of the pool's worker threads, \<open>own_thread\<close>, the join
  of the current thread raises \<^verbatim>\<open>RuntimeError\<close> (cannot join current thread); the model
  raises it at once, without the wait for the threads that the pool's thread set may list
  before the caller.
\<close>

datatype join_state = Completed | Joining

definition idle :: "('id, 'f) thread_pool_executor \<Rightarrow> bool" where
  "idle p = (work_queue p = [] \<and> running p = [])"

definition tpe_shutdown ::
  "bool \<Rightarrow> bool \<Rightarrow> bool \<Rightarrow> ('id, 'f) thread_pool_executor
     \<Rightarrow> (py_error + join_state) \<times> ('id, 'f) thread_pool_executor" where
  "tpe_shutdown own_thread wait cancel_futures p =
     (let p' = (if cancel_futures
                then p\<lparr>shutdown_flag := True, work_queue := [],
                       cancelled := cancelled p @ work_queue p\<rparr>
                else p\<lparr>shutdown_flag := True\<rparr>)
      in if wait
         then (if own_thread then (Inl RuntimeError, p')
               else if idle p' then (Inr Completed, p')
               else (Inr Joining, p'))
         else (Inr Completed, p'))"

section \<open>The job executor engine (bg\_threads.py)\<close>

text \<open>
  \<^verbatim>\<open>_JobExecutorEngine\<close>: the pool and the set of reserved job identifiers. Every access
  to \<^verbatim>\<open>_job_ids\<close> in the source happens inside \<^verbatim>\<open>with self._lock\<close>, so each locked block
  is one atomic step of the model and the lock itself carries no state.

  A leading underscore of a Python name is dropped (an Isabelle name cannot start with
  one); \<^verbatim>\<open>_submit_job\<close>, which would then clash with \<^verbatim>\<open>submit_job\<close>, is
  \<open>submit_job_locked\<close>. A function returns its result, or the exception it raises, next to
  the engine as the call leaves it.
\<close>

record ('id, 'f) job_executor_engine =
  executor :: "('id, 'f) thread_pool_executor"
  job_ids :: "'id set"

definition JobExecutorEngine_init :: "py_value \<Rightarrow> py_error + ('id, 'f) job_executor_engine" where
  "JobExecutorEngine_init mw =
     (case ThreadPoolExecutor_init mw of
        Inl err \<Rightarrow> Inl err
      | Inr p \<Rightarrow> Inr \<lparr>executor = p, job_ids = {}\<rparr>)"

text \<open>
  \<^verbatim>\<open>def submit_job(self, fn, *args, **kwargs)\<close>, returning
  \<^verbatim>\<open>bool(self._executor.submit(fn, ...))\<close>: a \<^verbatim>\<open>Future\<close> is truthy.
\<close>

definition submit_job ::
  "'f \<Rightarrow> kwargs \<Rightarrow> ('id, 'f) job_executor_engine
     \<Rightarrow> (py_error + bool) \<times> ('id, 'f) job_executor_engine" where
  "submit_job fn kw e =
     (if kw_clash [''self'', ''fn''] kw then (Inl TypeError, e)
      else
        case tpe_submit (Plain fn kw) (executor e) of
          Inl err \<Rightarrow> (Inl err, e)
        | Inr p \<Rightarrow> (Inr True, e\<lparr>executor := p\<rparr>))"

text \<open>
  \<^verbatim>\<open>def _submit_job(self, job_id, run_fn, fn, *args, **kwargs)\<close>: the duplicate check,
  then \<^verbatim>\<open>self._job_ids.add(job_id)\<close>, then the pool's \<^verbatim>\<open>submit\<close>. An exception of the pool
  leaves the block after the identifier was added.
\<close>

definition submit_job_locked ::
  "'id \<Rightarrow> ('id \<Rightarrow> 'f \<Rightarrow> kwargs \<Rightarrow> ('id, 'f) work_item) \<Rightarrow> 'f \<Rightarrow> kwargs
     \<Rightarrow> ('id, 'f) job_executor_engine \<Rightarrow> (py_error + bool) \<times> ('id, 'f) job_executor_engine" where
  "submit_job_locked job_id run_fn fn kw e =
     (if kw_clash [''self'', ''job_id'', ''run_fn'', ''fn''] kw then (Inl TypeError, e)
      else if job_id \<in> job_ids e then (Inr False, e)
      else
        let e1 = e\<lparr>job_ids := insert job_id (job_ids e)\<rparr> in
        case tpe_submit (run_fn job_id fn kw) (executor e1) of
          Inl err \<Rightarrow> (Inl err, e1)
        | Inr p \<Rightarrow> (Inr True, e1\<lparr>executor := p\<rparr>))"

text \<open>
  \<^verbatim>\<open>def submit_unique_job_pre(self, job_id, fn, *args, **kwargs)\<close> and its post twin.
\<close>

definition submit_unique_job_pre ::
  "'id \<Rightarrow> 'f \<Rightarrow> kwargs \<Rightarrow> ('id, 'f) job_executor_engine
     \<Rightarrow> (py_error + bool) \<times> ('id, 'f) job_executor_engine" where
  "submit_unique_job_pre job_id fn kw e =
     (if kw_clash [''self'', ''job_id'', ''fn''] kw then (Inl TypeError, e)
      else submit_job_locked job_id Run_pre_job fn kw e)"

definition submit_unique_job_post ::
  "'id \<Rightarrow> 'f \<Rightarrow> kwargs \<Rightarrow> ('id, 'f) job_executor_engine
     \<Rightarrow> (py_error + bool) \<times> ('id, 'f) job_executor_engine" where
  "submit_unique_job_post job_id fn kw e =
     (if kw_clash [''self'', ''job_id'', ''fn''] kw then (Inl TypeError, e)
      else submit_job_locked job_id Run_post_job fn kw e)"

text \<open>
  \<^verbatim>\<open>with self._lock: self._job_ids.remove(job_id)\<close>, the locked block of both wrappers.
  \<^verbatim>\<open>set.remove\<close> raises \<^verbatim>\<open>KeyError\<close> when the element is absent.
\<close>

definition job_ids_remove ::
  "'id \<Rightarrow> ('id, 'f) job_executor_engine \<Rightarrow> (py_error + unit) \<times> ('id, 'f) job_executor_engine" where
  "job_ids_remove job_id e =
     (if job_id \<in> job_ids e then (Inr (), e\<lparr>job_ids := job_ids e - {job_id}\<rparr>)
      else (Inl KeyError, e))"

text \<open>
  The outcome of the job body \<^verbatim>\<open>fn(*args, **kwargs)\<close>, which the model cannot look into.
\<close>

datatype outcome = Returned | Raised

definition fn_result :: "outcome \<Rightarrow> py_error + unit" where
  "fn_result oc = (case oc of Returned \<Rightarrow> Inr () | Raised \<Rightarrow> Inl JobError)"

text \<open>
  The parameters of both wrappers, \<^verbatim>\<open>(self, job_id, fn, *args, **kwargs)\<close>: the pool calls
  a wrapper with the keyword arguments of the submission, and a collision raises before
  the wrapper's body runs.
\<close>

definition wrapper_params :: "string list" where
  "wrapper_params = [''self'', ''job_id'', ''fn'']"

text \<open>
  \<^verbatim>\<open>_run_pre_job\<close>: the locked removal first, then the job body. A \<^verbatim>\<open>KeyError\<close> of the
  removal leaves the function before the body is called.
\<close>

definition run_pre_job ::
  "'id \<Rightarrow> kwargs \<Rightarrow> outcome \<Rightarrow> ('id, 'f) job_executor_engine
     \<Rightarrow> (py_error + unit) \<times> ('id, 'f) job_executor_engine" where
  "run_pre_job job_id kw oc e =
     (if kw_clash wrapper_params kw then (Inl TypeError, e)
      else
        case job_ids_remove job_id e of
          (Inl err, e') \<Rightarrow> (Inl err, e')
        | (Inr u, e') \<Rightarrow> (fn_result oc, e'))"

text \<open>
  \<^verbatim>\<open>_run_post_job\<close>: the job body inside \<^verbatim>\<open>try\<close>, the locked removal inside
  \<^verbatim>\<open>finally\<close>. An exception of the \<^verbatim>\<open>finally\<close> block replaces the one of the body.
\<close>

definition run_post_job ::
  "'id \<Rightarrow> kwargs \<Rightarrow> outcome \<Rightarrow> ('id, 'f) job_executor_engine
     \<Rightarrow> (py_error + unit) \<times> ('id, 'f) job_executor_engine" where
  "run_post_job job_id kw oc e =
     (if kw_clash wrapper_params kw then (Inl TypeError, e)
      else
        let r = fn_result oc in
        case job_ids_remove job_id e of
          (Inl err, e') \<Rightarrow> (Inl err, e')
        | (Inr u, e') \<Rightarrow> (r, e'))"

text \<open>
  \<^verbatim>\<open>def shutdown(self, wait, cancel_pending)\<close>. \<open>own_thread\<close> says whether the calling
  thread is a worker thread of this engine's pool.
\<close>

definition shutdown ::
  "bool \<Rightarrow> bool \<Rightarrow> bool \<Rightarrow> ('id, 'f) job_executor_engine
     \<Rightarrow> (py_error + join_state) \<times> ('id, 'f) job_executor_engine" where
  "shutdown own_thread wait cancel_pending e =
     (case tpe_shutdown own_thread wait cancel_pending (executor e) of
        (r, p) \<Rightarrow> (r, e\<lparr>executor := p\<rparr>))"

section \<open>The workers of an engine's pool\<close>

text \<open>
  A worker thread of the pool takes the item at the head of the queue and runs it; the
  pool never has more than \<open>max_workers\<close> threads, each running one item. The job body
  touches nothing of the engine, so a wrapper acts on the engine in one atomic step: the
  pre wrapper when it starts (its locked removal, after which the body runs for as long
  as it likes), the post wrapper when its body has returned or raised (the removal in
  \<^verbatim>\<open>finally\<close>). A wrapper whose call or whose removal raises before the body ends at once.
\<close>

definition worker_start :: "('id, 'f) job_executor_engine \<Rightarrow> ('id, 'f) job_executor_engine" where
  "worker_start e =
     (let p = executor e in
      case work_queue p of
        [] \<Rightarrow> e
      | w # q \<Rightarrow>
          if max_workers p \<le> int (length (running p)) then e
          else
            (case w of
               Run_pre_job job_id fn kw \<Rightarrow>
                 if kw_clash wrapper_params kw then e\<lparr>executor := p\<lparr>work_queue := q\<rparr>\<rparr>
                 else
                   (case job_ids_remove job_id e of
                      (Inl err, e') \<Rightarrow> e'\<lparr>executor := p\<lparr>work_queue := q\<rparr>\<rparr>
                    | (Inr u, e') \<Rightarrow>
                        e'\<lparr>executor := p\<lparr>work_queue := q, running := running p @ [w]\<rparr>\<rparr>)
             | Run_post_job job_id fn kw \<Rightarrow>
                 if kw_clash wrapper_params kw then e\<lparr>executor := p\<lparr>work_queue := q\<rparr>\<rparr>
                 else e\<lparr>executor := p\<lparr>work_queue := q, running := running p @ [w]\<rparr>\<rparr>
             | Plain fn kw \<Rightarrow>
                 e\<lparr>executor := p\<lparr>work_queue := q, running := running p @ [w]\<rparr>\<rparr>))"

definition worker_finish ::
  "nat \<Rightarrow> outcome \<Rightarrow> ('id, 'f) job_executor_engine \<Rightarrow> ('id, 'f) job_executor_engine" where
  "worker_finish k oc e =
     (let p = executor e in
      if k < length (running p) then
        let e1 = e\<lparr>executor := p\<lparr>running := take k (running p) @ drop (Suc k) (running p)\<rparr>\<rparr> in
        (case running p ! k of
           Run_post_job job_id fn kw \<Rightarrow> snd (run_post_job job_id kw oc e1)
         | Run_pre_job job_id fn kw \<Rightarrow> e1
         | Plain fn kw \<Rightarrow> e1)
      else e)"

section \<open>The module level: the lazily constructed executor\<close>

text \<open>
  The calls a thread can be in the middle of. \<^verbatim>\<open>_get_exec\<close> takes no lock, so a thread
  that has found \<^verbatim>\<open>_job_executor is None\<close> can be overtaken before it assigns the
  global (\<open>At_construct\<close>), again before it reads the global for its \<^verbatim>\<open>return\<close>
  (\<open>At_return\<close>), and again before it calls the method on the engine that was returned
  to it (\<open>At_method\<close>); a \<^verbatim>\<open>shutdown\<close> with \<^verbatim>\<open>wait\<close> can be blocked in the join
  (\<open>At_join\<close>). \<open>Finished\<close> holds what the call returned or raised.
\<close>

datatype ('id, 'f) submission =
    Bg_run 'f kwargs
  | Bg_run_unique_pre 'id 'f kwargs
  | Bg_run_unique_post 'id 'f kwargs

datatype py_return = Ret_bool bool | Ret_none

datatype ('id, 'f) thread_state =
    At_construct "('id, 'f) submission"
  | At_return "('id, 'f) submission"
  | At_method address "('id, 'f) submission"
  | At_join address
  | Finished "py_error + py_return"

text \<open>
  The module's globals: \<^verbatim>\<open>DEFAULT_BG_THREADS\<close>, evaluated once when the module is
  imported and bound as the default of \<^verbatim>\<open>max_workers\<close>, and \<^verbatim>\<open>_job_executor\<close>, a
  reference to an engine or \<^verbatim>\<open>None\<close>. \<open>engines\<close> holds the engine objects constructed
  so far, by address; \<open>threads\<close> the calls in progress and their results, each under
  the number its caller gave it (a thread that calls again takes a new number).
\<close>

record ('id, 'f) module_state =
  DEFAULT_BG_THREADS :: py_value
  job_executor :: "address option"
  engines :: "('id, 'f) job_executor_engine list"
  threads :: "nat \<Rightarrow> ('id, 'f) thread_state option"

definition module_import :: "(string \<rightharpoonup> string) \<Rightarrow> ('id, 'f) module_state" where
  "module_import env =
     \<lparr>DEFAULT_BG_THREADS = os_getenv env ''ENGINE_BACKGROUND_THREADS'' (PyInt 4),
      job_executor = None, engines = [], threads = (\<lambda>tid. None)\<rparr>"

text \<open>
  \<^verbatim>\<open>_get_exec\<close>. Its second line, \<^verbatim>\<open>_job_executor = _JobExecutorEngine()\<close>, constructs an
  engine and assigns the global; an exception of the constructor leaves the global as it
  was. The function returns what the global holds when the \<^verbatim>\<open>return\<close> reads it.
\<close>

definition get_exec_construct ::
  "('id, 'f) module_state \<Rightarrow> (py_error + unit) \<times> ('id, 'f) module_state" where
  "get_exec_construct ms =
     (case JobExecutorEngine_init (DEFAULT_BG_THREADS ms) of
        Inl err \<Rightarrow> (Inl err, ms)
      | Inr e \<Rightarrow>
          (Inr (), ms\<lparr>engines := engines ms @ [e],
                       job_executor := Some (length (engines ms))\<rparr>))"

definition get_exec ::
  "('id, 'f) module_state \<Rightarrow> (py_error + address option) \<times> ('id, 'f) module_state" where
  "get_exec ms =
     (case job_executor ms of
        None \<Rightarrow>
          (case get_exec_construct ms of
             (Inl err, ms') \<Rightarrow> (Inl err, ms')
           | (Inr u, ms') \<Rightarrow> (Inr (job_executor ms'), ms'))
      | Some a \<Rightarrow> (Inr (job_executor ms), ms))"

text \<open>
  A method call on the engine at an address: the engine is an object, so what the method
  did to it is what every reference to it sees afterwards.
\<close>

definition on_engine ::
  "address \<Rightarrow> (('id, 'f) job_executor_engine \<Rightarrow> 'r \<times> ('id, 'f) job_executor_engine)
     \<Rightarrow> ('id, 'f) module_state \<Rightarrow> 'r \<times> ('id, 'f) module_state" where
  "on_engine a m ms =
     (case m (engines ms ! a) of
        (r, e') \<Rightarrow> (r, ms\<lparr>engines := (engines ms)[a := e']\<rparr>))"

text \<open>
  \<^verbatim>\<open>_get_exec().method(...)\<close>: the engine is fetched first, then the call is bound and
  run. A method call on \<^verbatim>\<open>None\<close> raises \<^verbatim>\<open>AttributeError\<close>.
\<close>

definition on_exec ::
  "(('id, 'f) job_executor_engine \<Rightarrow> (py_error + 'r) \<times> ('id, 'f) job_executor_engine)
     \<Rightarrow> ('id, 'f) module_state \<Rightarrow> (py_error + 'r) \<times> ('id, 'f) module_state" where
  "on_exec m ms =
     (case get_exec ms of
        (Inl err, ms') \<Rightarrow> (Inl err, ms')
      | (Inr None, ms') \<Rightarrow> (Inl AttributeError, ms')
      | (Inr (Some a), ms') \<Rightarrow> on_engine a m ms')"

text \<open>
  \<^verbatim>\<open>def bg_run(fn, *args, **kwargs)\<close>, \<^verbatim>\<open>def bg_run_unique_post(id, fn, *args, **kwargs)\<close>
  and \<^verbatim>\<open>def bg_run_unique_pre(id, fn, *args, **kwargs)\<close>, each run without interruption.
\<close>

definition bg_run ::
  "'f \<Rightarrow> kwargs \<Rightarrow> ('id, 'f) module_state \<Rightarrow> (py_error + bool) \<times> ('id, 'f) module_state" where
  "bg_run fn kw ms =
     (if kw_clash [''fn''] kw then (Inl TypeError, ms)
      else on_exec (submit_job fn kw) ms)"

definition bg_run_unique_post ::
  "'id \<Rightarrow> 'f \<Rightarrow> kwargs \<Rightarrow> ('id, 'f) module_state
     \<Rightarrow> (py_error + bool) \<times> ('id, 'f) module_state" where
  "bg_run_unique_post job_id fn kw ms =
     (if kw_clash [''id'', ''fn''] kw then (Inl TypeError, ms)
      else on_exec (submit_unique_job_post job_id fn kw) ms)"

definition bg_run_unique_pre ::
  "'id \<Rightarrow> 'f \<Rightarrow> kwargs \<Rightarrow> ('id, 'f) module_state
     \<Rightarrow> (py_error + bool) \<times> ('id, 'f) module_state" where
  "bg_run_unique_pre job_id fn kw ms =
     (if kw_clash [''id'', ''fn''] kw then (Inl TypeError, ms)
      else on_exec (submit_unique_job_pre job_id fn kw) ms)"

text \<open>
  \<^verbatim>\<open>bg_exec_shutdown(wait, cancel_pending)\<close>. \<open>caller\<close> is the address of the engine whose
  pool the calling thread is a worker of, when the call is made by a job body, and
  \<open>None\<close> for any other thread.
\<close>

definition bg_exec_shutdown ::
  "address option \<Rightarrow> bool \<Rightarrow> bool \<Rightarrow> ('id, 'f) module_state
     \<Rightarrow> (py_error + join_state) \<times> ('id, 'f) module_state" where
  "bg_exec_shutdown caller wait cancel_pending ms =
     (case job_executor ms of
        None \<Rightarrow> (Inr Completed, ms)
      | Some a \<Rightarrow> on_engine a (shutdown (caller = Some a) wait cancel_pending) ms)"

section \<open>Threads and events\<close>

text \<open>
  The parts of a submission: the parameter names of the module-level function, the
  keyword names of the call, and the engine method the function calls.
\<close>

primrec submission_params :: "('id, 'f) submission \<Rightarrow> string list" where
  "submission_params (Bg_run fn kw) = [''fn'']"
| "submission_params (Bg_run_unique_pre job_id fn kw) = [''id'', ''fn'']"
| "submission_params (Bg_run_unique_post job_id fn kw) = [''id'', ''fn'']"

primrec submission_kwargs :: "('id, 'f) submission \<Rightarrow> kwargs" where
  "submission_kwargs (Bg_run fn kw) = kw"
| "submission_kwargs (Bg_run_unique_pre job_id fn kw) = kw"
| "submission_kwargs (Bg_run_unique_post job_id fn kw) = kw"

primrec submission_method ::
  "('id, 'f) submission \<Rightarrow> ('id, 'f) job_executor_engine
     \<Rightarrow> (py_error + bool) \<times> ('id, 'f) job_executor_engine" where
  "submission_method (Bg_run fn kw) = submit_job fn kw"
| "submission_method (Bg_run_unique_pre job_id fn kw) = submit_unique_job_pre job_id fn kw"
| "submission_method (Bg_run_unique_post job_id fn kw) = submit_unique_job_post job_id fn kw"

primrec run_submission ::
  "('id, 'f) submission \<Rightarrow> ('id, 'f) module_state \<Rightarrow> (py_error + bool) \<times> ('id, 'f) module_state" where
  "run_submission (Bg_run fn kw) = bg_run fn kw"
| "run_submission (Bg_run_unique_pre job_id fn kw) = bg_run_unique_pre job_id fn kw"
| "run_submission (Bg_run_unique_post job_id fn kw) = bg_run_unique_post job_id fn kw"

definition park ::
  "nat \<Rightarrow> ('id, 'f) thread_state \<Rightarrow> ('id, 'f) module_state \<Rightarrow> ('id, 'f) module_state" where
  "park tid ts ms = ms\<lparr>threads := (threads ms)(tid \<mapsto> ts)\<rparr>"

text \<open>
  A call takes a number that no call has used, and can come from a job body only while
  the pool it names is running an item.
\<close>

definition can_call :: "nat \<Rightarrow> address option \<Rightarrow> ('id, 'f) module_state \<Rightarrow> bool" where
  "can_call tid caller ms =
     (threads ms tid = None \<and>
      (case caller of
         None \<Rightarrow> True
       | Some a \<Rightarrow> a < length (engines ms) \<and> running (executor (engines ms ! a)) \<noteq> []))"

text \<open>
  A thread enters a submission: the binding of the module-level function, then the test
  \<^verbatim>\<open>_job_executor is None\<close> of \<^verbatim>\<open>_get_exec\<close>.
\<close>

definition enter ::
  "nat \<Rightarrow> address option \<Rightarrow> ('id, 'f) submission \<Rightarrow> ('id, 'f) module_state
     \<Rightarrow> ('id, 'f) module_state" where
  "enter tid caller s ms =
     (if \<not> can_call tid caller ms then ms
      else if kw_clash (submission_params s) (submission_kwargs s)
      then park tid (Finished (Inl TypeError)) ms
      else if job_executor ms = None then park tid (At_construct s) ms
      else park tid (At_return s) ms)"

text \<open>The next step of a thread that is in a call; a blocked join stays blocked.\<close>

definition resume :: "nat \<Rightarrow> ('id, 'f) module_state \<Rightarrow> ('id, 'f) module_state" where
  "resume tid ms =
     (case threads ms tid of
        None \<Rightarrow> ms
      | Some (At_construct s) \<Rightarrow>
          (case get_exec_construct ms of
             (Inl err, ms') \<Rightarrow> park tid (Finished (Inl err)) ms'
           | (Inr u, ms') \<Rightarrow> park tid (At_return s) ms')
      | Some (At_return s) \<Rightarrow>
          (case job_executor ms of
             None \<Rightarrow> park tid (Finished (Inl AttributeError)) ms
           | Some a \<Rightarrow> park tid (At_method a s) ms)
      | Some (At_method a s) \<Rightarrow>
          (case on_engine a (submission_method s) ms of
             (Inl err, ms') \<Rightarrow> park tid (Finished (Inl err)) ms'
           | (Inr b, ms') \<Rightarrow> park tid (Finished (Inr (Ret_bool b))) ms')
      | Some (At_join a) \<Rightarrow>
          if idle (executor (engines ms ! a)) then park tid (Finished (Inr Ret_none)) ms
          else ms
      | Some (Finished r) \<Rightarrow> ms)"

text \<open>
  What can happen to the module, one atomic step each: a thread enters a submission or
  takes its next step; a thread makes a whole submission without being overtaken; a
  thread calls \<^verbatim>\<open>bg_exec_shutdown\<close>; a worker of some engine's pool starts the next item or
  ends a running one. An exception of a call goes to the caller; the state stays as the
  call left it. \<^verbatim>\<open>bg_exec_shutdown\<close> reads the global twice, for its test and for the
  call; the global is never set back to \<^verbatim>\<open>None\<close>, so a call that passes the test does
  what a call made at the second read does, and one step stands for both reads.
\<close>

datatype ('id, 'f) event =
    Enter nat "address option" "('id, 'f) submission"
  | Resume nat
  | Call nat "address option" "('id, 'f) submission"
  | Shutdown nat "address option" bool bool
  | Worker_start address
  | Worker_finish address nat outcome

fun step :: "('id, 'f) event \<Rightarrow> ('id, 'f) module_state \<Rightarrow> ('id, 'f) module_state" where
  "step (Enter tid caller s) ms = enter tid caller s ms"
| "step (Resume tid) ms = resume tid ms"
| "step (Call tid caller s) ms = resume tid (resume tid (resume tid (enter tid caller s ms)))"
| "step (Shutdown tid caller wait cancel_pending) ms =
     (if \<not> can_call tid caller ms then ms
      else
        case bg_exec_shutdown caller wait cancel_pending ms of
          (Inl err, ms') \<Rightarrow> park tid (Finished (Inl err)) ms'
        | (Inr Completed, ms') \<Rightarrow> park tid (Finished (Inr Ret_none)) ms'
        | (Inr Joining, ms') \<Rightarrow>
            (case job_executor ms of
               None \<Rightarrow> ms'
             | Some a \<Rightarrow> park tid (At_join a) ms'))"
| "step (Worker_start a) ms =
     (if a < length (engines ms)
      then ms\<lparr>engines := (engines ms)[a := worker_start (engines ms ! a)]\<rparr>
      else ms)"
| "step (Worker_finish a k oc) ms =
     (if a < length (engines ms)
      then ms\<lparr>engines := (engines ms)[a := worker_finish k oc (engines ms ! a)]\<rparr>
      else ms)"

fun run_events :: "('id, 'f) event list \<Rightarrow> ('id, 'f) module_state \<Rightarrow> ('id, 'f) module_state" where
  "run_events [] ms = ms"
| "run_events (ev # evs) ms = run_events evs (step ev ms)"

section \<open>The bookkeeping the claims are about\<close>

text \<open>
  The identifiers of the accepted jobs that have not reached their release point: the
  wrappers still queued, the post wrappers whose body is running, and the wrappers that a
  shutdown cancelled in the queue (they never run).
\<close>

primrec item_id :: "('id, 'f) work_item \<Rightarrow> 'id list" where
  "item_id (Plain fn kw) = []"
| "item_id (Run_pre_job job_id fn kw) = [job_id]"
| "item_id (Run_post_job job_id fn kw) = [job_id]"

primrec post_id :: "('id, 'f) work_item \<Rightarrow> 'id list" where
  "post_id (Plain fn kw) = []"
| "post_id (Run_pre_job job_id fn kw) = []"
| "post_id (Run_post_job job_id fn kw) = [job_id]"

definition unreleased_ids :: "('id, 'f) job_executor_engine \<Rightarrow> 'id list" where
  "unreleased_ids e =
     concat (map item_id (work_queue (executor e)))
     @ concat (map post_id (running (executor e)))
     @ concat (map item_id (cancelled (executor e)))"

text \<open>The pool can call the item: the keyword names of a wrapper's call do not collide.\<close>

primrec item_bindable :: "('id, 'f) work_item \<Rightarrow> bool" where
  "item_bindable (Plain fn kw) = True"
| "item_bindable (Run_pre_job job_id fn kw) = (\<not> kw_clash wrapper_params kw)"
| "item_bindable (Run_post_job job_id fn kw) = (\<not> kw_clash wrapper_params kw)"

text \<open>
  \<open>reservations_ok\<close>: within one engine, no identifier belongs to two unreleased jobs,
  every unreleased job's identifier is reserved, and every queued or running item can be
  called. \<open>reservations_exact\<close>: the reserved set holds nothing else.
\<close>

definition reservations_ok :: "('id, 'f) job_executor_engine \<Rightarrow> bool" where
  "reservations_ok e =
     (distinct (unreleased_ids e) \<and> set (unreleased_ids e) \<subseteq> job_ids e
      \<and> list_all item_bindable (work_queue (executor e))
      \<and> list_all item_bindable (running (executor e)))"

definition reservations_exact :: "('id, 'f) job_executor_engine \<Rightarrow> bool" where
  "reservations_exact e = (job_ids e = set (unreleased_ids e))"

text \<open>The global, when it is set, refers to an engine that has been constructed.\<close>

definition global_valid :: "('id, 'f) module_state \<Rightarrow> bool" where
  "global_valid ms = (case job_executor ms of None \<Rightarrow> True | Some a \<Rightarrow> a < length (engines ms))"


section \<open>Hashing a file (paths.py)\<close>

text \<open>
  A file opened with \<^verbatim>\<open>open(file_target, 'rb')\<close>: its bytes and the read position.
  \<^verbatim>\<open>f.read(n)\<close> of the buffered reader returns the next \<open>n\<close> bytes, fewer only at the end
  of the file, and everything that is left when \<open>n\<close> is -1; any other negative size raises
  \<^verbatim>\<open>ValueError\<close> (read length must be non-negative or -1).
\<close>

type_synonym byte = "8 word"

record file_object =
  contents :: "byte list"
  pos :: nat

definition open_rb :: "(string \<rightharpoonup> byte list) \<Rightarrow> string \<Rightarrow> py_error + file_object" where
  "open_rb fs file_target =
     (case fs file_target of
        None \<Rightarrow> Inl FileNotFoundError
      | Some bs \<Rightarrow> Inr \<lparr>contents = bs, pos = 0\<rparr>)"

definition file_read :: "int \<Rightarrow> file_object \<Rightarrow> py_error + byte list \<times> file_object" where
  "file_read n f =
     (if n < - 1 then Inl ValueError
      else
        let rest = drop (pos f) (contents f);
            buf = (if n = - 1 then rest else take (nat n) rest)
        in Inr (buf, f\<lparr>pos := pos f + length buf\<rparr>))"

text \<open>
  \<^verbatim>\<open>hashlib.sha1\<close> by its documented contract: the object stands for the bytes fed to
  it so far (repeated \<^verbatim>\<open>update\<close> calls are the same as one call with the concatenation),
  and \<^verbatim>\<open>hexdigest\<close> is the digest of those bytes. The digest function itself is the
  parameter \<open>H\<close>.
\<close>

type_synonym sha1_object = "byte list"

definition sha1 :: sha1_object where
  "sha1 = []"

definition sha1_update :: "sha1_object \<Rightarrow> byte list \<Rightarrow> sha1_object" where
  "sha1_update hash_alg buf = hash_alg @ buf"

definition sha1_hexdigest :: "(byte list \<Rightarrow> string) \<Rightarrow> sha1_object \<Rightarrow> string" where
  "sha1_hexdigest H hash_alg = H hash_alg"

text \<open>
  The \<^verbatim>\<open>while len(buf) > 0\<close> loop of \<^verbatim>\<open>hash_file_sha1\<close>; an exception of a read ends it.
\<close>

function hash_loop ::
  "int \<Rightarrow> sha1_object \<Rightarrow> file_object \<Rightarrow> byte list \<Rightarrow> py_error + sha1_object" where
  "hash_loop buffer_size hash_alg f buf =
     (if length buf > 0
      then (case file_read buffer_size f of
              Inl err \<Rightarrow> Inl err
            | Inr (buf', f') \<Rightarrow> hash_loop buffer_size (sha1_update hash_alg buf) f' buf')
      else Inr hash_alg)"
  by pat_completeness auto
termination
  by (relation "measure (\<lambda>(n, a, f, buf). (length (contents f) - pos f) + (if buf = [] then 0 else 1))")
     (auto simp: file_read_def Let_def split: if_splits)

definition hash_file_sha1 ::
  "(byte list \<Rightarrow> string) \<Rightarrow> (string \<rightharpoonup> byte list) \<Rightarrow> string \<Rightarrow> int \<Rightarrow> py_error + string" where
  "hash_file_sha1 H fs file_target buffer_size =
     (case open_rb fs file_target of
        Inl err \<Rightarrow> Inl err
      | Inr f \<Rightarrow>
          (case file_read buffer_size f of
             Inl err \<Rightarrow> Inl err
           | Inr (buf, f') \<Rightarrow>
               (case hash_loop buffer_size sha1 f' buf of
                  Inl err \<Rightarrow> Inl err
                | Inr hash_alg \<Rightarrow> Inr (sha1_hexdigest H hash_alg))))"

text \<open>
  The claim's words, for comparison with the loop: the successive chunks of a given size
  of a byte sequence, the last one possibly shorter.
\<close>

function fixed_size_chunks :: "nat \<Rightarrow> 'a list \<Rightarrow> 'a list list" where
  "fixed_size_chunks n xs =
     (if n = 0 \<or> xs = [] then [] else take n xs # fixed_size_chunks n (drop n xs))"
  by pat_completeness auto
termination
  by (relation "measure (\<lambda>(n, xs). length xs)") auto

declare fixed_size_chunks.simps [simp del]

declare hash_loop.simps [simp del]

section \<open>The path helpers and their default lists (paths.py)\<close>

text \<open>
  \<^verbatim>\<open>os.path.split\<close> of \<^verbatim>\<open>posixpath\<close>: the tail is what follows the last slash, the head
  what precedes it, with its trailing slashes stripped unless it consists of slashes only.
\<close>

definition osp_split :: "string \<Rightarrow> string \<times> string" where
  "osp_split p =
     (let tail = rev (takeWhile (\<lambda>c. c \<noteq> CHR ''/'') (rev p));
          head = rev (dropWhile (\<lambda>c. c \<noteq> CHR ''/'') (rev p))
      in (if head \<noteq> [] \<and> head \<noteq> replicate (length head) (CHR ''/'')
          then rev (dropWhile (\<lambda>c. c = CHR ''/'') (rev head))
          else head,
          tail))"

text \<open>
  The accumulator lists are Python objects: the default \<^verbatim>\<open>list()\<close> of a parameter is
  built once, when the function is defined, and every call that omits the argument gets
  that same object. The store holds the list objects by address; the only operation the
  two helpers perform on a list is building a new one (\<^verbatim>\<open>[t] + rest\<close>,
  \<^verbatim>\<open>common + [l1[0]]\<close>), which allocates. The path parts \<^verbatim>\<open>l1\<close>, \<^verbatim>\<open>l2\<close> are passed by
  value.
\<close>

type_synonym store = "string list list"

definition alloc :: "string list \<Rightarrow> store \<Rightarrow> address \<times> store" where
  "alloc v st = (length st, st @ [v])"

text \<open>
  \<^verbatim>\<open>_path_split(p, rest)\<close> with \<open>rest\<close> the address of the accumulator; the result is the
  address of the list returned.
\<close>

function path_split_at :: "string \<Rightarrow> address \<Rightarrow> store \<Rightarrow> address \<times> store" where
  "path_split_at p rest st =
     (case osp_split p of
        (h, t) \<Rightarrow>
          if length h < 1 then alloc ([t] @ st ! rest) st
          else if length t < 1 then alloc ([h] @ st ! rest) st
          else (case alloc ([t] @ st ! rest) st of
                  (rest', st') \<Rightarrow> path_split_at h rest' st'))"
  by pat_completeness auto
termination
proof -
  have shorter: "length h < length p" if "osp_split p = (h, t)" and "\<not> length t < 1"
    for p h t :: string
  proof -
    define tk where "tk = takeWhile (\<lambda>c. c \<noteq> CHR ''/'') (rev p)"
    define dr where "dr = dropWhile (\<lambda>c. c \<noteq> CHR ''/'') (rev p)"
    have "length (tk @ dr) = length (rev p)"
      unfolding tk_def dr_def by (simp only: takeWhile_dropWhile_id)
    then have total: "length tk + length dr = length p"
      by simp
    have split_eq: "osp_split p =
        (if rev dr \<noteq> [] \<and> rev dr \<noteq> replicate (length (rev dr)) (CHR ''/'')
         then rev (dropWhile (\<lambda>c. c = CHR ''/'') (rev (rev dr))) else rev dr, rev tk)"
      unfolding osp_split_def tk_def dr_def Let_def by (rule refl)
    have "length (dropWhile (\<lambda>c. c = CHR ''/'') dr) \<le> length dr"
      by (rule length_dropWhile_le)
    with that(1) have "length h \<le> length dr" and "t = rev tk"
      unfolding split_eq by (auto split: if_splits)
    with total that(2) show ?thesis
      by (cases tk) auto
  qed
  have shorter': "length h < length p" if "(h, t) = osp_split p" and "t \<noteq> []"
    for p h t :: string
    using shorter [of p h t] that by simp
  show ?thesis
    by (relation "measure (\<lambda>(p, rest, st). length p)") (auto intro: shorter')
qed

declare path_split_at.simps [simp del]

text \<open>
  \<^verbatim>\<open>_common_path(l1, l2, common)\<close> with \<open>common\<close> the address of the accumulator; the
  first component of the result is the address of the list returned as \<^verbatim>\<open>common\<close>.
\<close>

function common_path_at ::
  "string list \<Rightarrow> string list \<Rightarrow> address \<Rightarrow> store \<Rightarrow> (address \<times> string list \<times> string list) \<times> store" where
  "common_path_at l1 l2 common st =
     (if length l1 = 0 \<or> length l2 = 0 then ((common, l1, l2), st)
      else if hd l1 \<noteq> hd l2 then ((common, l1, l2), st)
      else (case alloc (st ! common @ [hd l1]) st of
              (common', st') \<Rightarrow> common_path_at (tl l1) (tl l2) common' st'))"
  by pat_completeness auto
termination
  by (relation "measure (\<lambda>(l1, l2, common, st). length l1)") auto

declare common_path_at.simps [simp del]

text \<open>
  The store right after \<^verbatim>\<open>paths.py\<close> is imported: address 0 is the default \<open>rest\<close> of
  \<^verbatim>\<open>_path_split\<close>, address 1 the default \<open>common\<close> of \<^verbatim>\<open>_common_path\<close>. A call that
  omits the accumulator gets the default object; a call that passes a list passes an
  object of the caller's, here a fresh one.
\<close>

definition paths_import :: store where
  "paths_import = [[], []]"

definition path_split_rest_default :: address where
  "path_split_rest_default = 0"

definition common_path_common_default :: address where
  "common_path_common_default = 1"

definition path_split :: "string \<Rightarrow> store \<Rightarrow> address \<times> store" where
  "path_split p st = path_split_at p path_split_rest_default st"

definition path_split_with :: "string \<Rightarrow> string list \<Rightarrow> store \<Rightarrow> address \<times> store" where
  "path_split_with p rest st = (case alloc rest st of (a, st') \<Rightarrow> path_split_at p a st')"

definition common_path ::
  "string list \<Rightarrow> string list \<Rightarrow> store \<Rightarrow> (address \<times> string list \<times> string list) \<times> store" where
  "common_path l1 l2 st = common_path_at l1 l2 common_path_common_default st"

definition common_path_with ::
  "string list \<Rightarrow> string list \<Rightarrow> string list \<Rightarrow> store
     \<Rightarrow> (address \<times> string list \<times> string list) \<times> store" where
  "common_path_with l1 l2 common st =
     (case alloc common st of (a, st') \<Rightarrow> common_path_at l1 l2 a st')"

text \<open>The lists a call returns, read from the store the call leaves.\<close>

definition path_split_value :: "address \<times> store \<Rightarrow> string list" where
  "path_split_value r = snd r ! fst r"

definition common_path_value ::
  "(address \<times> string list \<times> string list) \<times> store \<Rightarrow> string list \<times> string list \<times> string list" where
  "common_path_value r = (snd r ! fst (fst r), fst (snd (fst r)), snd (snd (fst r)))"

text \<open>Any sequence of calls of the two helpers, with or without the accumulator.\<close>

datatype path_call =
    Path_split string
  | Path_split_with string "string list"
  | Common_path "string list" "string list"
  | Common_path_with "string list" "string list" "string list"

fun path_call_store :: "path_call \<Rightarrow> store \<Rightarrow> store" where
  "path_call_store (Path_split p) st = snd (path_split p st)"
| "path_call_store (Path_split_with p rest) st = snd (path_split_with p rest st)"
| "path_call_store (Common_path l1 l2) st = snd (common_path l1 l2 st)"
| "path_call_store (Common_path_with l1 l2 common) st = snd (common_path_with l1 l2 common st)"

fun run_path_calls :: "path_call list \<Rightarrow> store \<Rightarrow> store" where
  "run_path_calls [] st = st"
| "run_path_calls (c # cs) st = run_path_calls cs (path_call_store c st)"

text \<open>Both default lists are in the store and are empty.\<close>

definition defaults_intact :: "store \<Rightarrow> bool" where
  "defaults_intact st =
     (2 \<le> length st \<and> st ! path_split_rest_default = [] \<and> st ! common_path_common_default = [])"

section \<open>Steps of the module and the engines they touch\<close>

lemma park_fields:
  "engines (park tid ts ms) = engines ms"
  "job_executor (park tid ts ms) = job_executor ms"
  "DEFAULT_BG_THREADS (park tid ts ms) = DEFAULT_BG_THREADS ms"
  "threads (park tid ts ms) = (threads ms)(tid \<mapsto> ts)"
  by (simp_all add: park_def)

lemma enter_fields:
  "engines (enter tid caller s ms) = engines ms"
  "job_executor (enter tid caller s ms) = job_executor ms"
  "DEFAULT_BG_THREADS (enter tid caller s ms) = DEFAULT_BG_THREADS ms"
  by (simp_all add: enter_def park_fields)

lemma on_engine_fields:
  "job_executor (snd (on_engine a m ms)) = job_executor ms"
  "DEFAULT_BG_THREADS (snd (on_engine a m ms)) = DEFAULT_BG_THREADS ms"
  "threads (snd (on_engine a m ms)) = threads ms"
  "engines (snd (on_engine a m ms)) = (engines ms)[a := snd (m (engines ms ! a))]"
  "fst (on_engine a m ms) = fst (m (engines ms ! a))"
  by (simp_all add: on_engine_def split_beta)

lemma construct_cases:
  obtains (failed) err where "get_exec_construct ms = (Inl err, ms)"
  | (constructed) e where "JobExecutorEngine_init (DEFAULT_BG_THREADS ms) = Inr e"
      and "get_exec_construct ms
             = (Inr (), ms\<lparr>engines := engines ms @ [e],
                            job_executor := Some (length (engines ms))\<rparr>)"
  by (cases "JobExecutorEngine_init (DEFAULT_BG_THREADS ms) :: py_error + ('a, 'b) job_executor_engine")
     (auto simp: get_exec_construct_def)

lemma list_all_update:
  "list_all P es \<Longrightarrow> (\<And>e. P e \<Longrightarrow> P (f e)) \<Longrightarrow> list_all P (es[a := f (es ! a)])"
  by (cases "a < length es") (auto simp: list_all_length nth_list_update)


text \<open>
  A property of engines that the constructor establishes and every operation on an engine
  keeps, holds of all engines along every run; one that the operations keep, stays true of
  an engine once it holds.
\<close>

lemma resume_list_all:
  assumes "list_all P (engines ms)"
    and dflt: "DEFAULT_BG_THREADS ms = d"
    and init: "\<And>e. JobExecutorEngine_init d = Inr e \<Longrightarrow> P e"
    and sub: "\<And>s e. P e \<Longrightarrow> P (snd (submission_method s e))"
  shows "list_all P (engines (resume tid ms))"
proof (cases "threads ms tid")
  case None
  with assms(1) show ?thesis by (simp add: resume_def)
next
  case (Some ts)
  show ?thesis
  proof (cases ts)
    case (At_construct s)
    show ?thesis
    proof (cases rule: construct_cases [where ms = ms])
      case (failed err)
      with Some At_construct assms(1) show ?thesis
        by (simp add: resume_def park_fields)
    next
      case (constructed e)
      with Some At_construct assms(1) init [of e] dflt show ?thesis
        by (simp add: resume_def park_fields)
    qed
  next
    case (At_return s)
    with Some assms(1) show ?thesis
      by (simp add: resume_def park_fields split: option.splits)
  next
    case (At_method a s)
    have "list_all P (engines (snd (on_engine a (submission_method s) ms)))"
      unfolding on_engine_fields using assms(1) sub by (rule list_all_update)
    with Some At_method show ?thesis
      by (auto simp: resume_def park_fields split: prod.splits sum.splits)
  next
    case (At_join a)
    with Some assms(1) show ?thesis
      by (simp add: resume_def park_fields)
  next
    case (Finished r)
    with Some assms(1) show ?thesis
      by (simp add: resume_def)
  qed
qed

lemma resume_default: "DEFAULT_BG_THREADS (resume tid ms) = DEFAULT_BG_THREADS ms"
  by (auto simp: resume_def park_fields on_engine_def get_exec_construct_def
      split: option.splits thread_state.splits prod.splits sum.splits)

lemma step_default: "DEFAULT_BG_THREADS (step ev ms) = DEFAULT_BG_THREADS ms"
  by (cases ev)
     (auto simp: resume_default enter_fields park_fields bg_exec_shutdown_def on_engine_fields
       split_beta split: option.splits sum.splits join_state.splits)

lemma run_events_default:
  "DEFAULT_BG_THREADS (run_events evs ms) = DEFAULT_BG_THREADS ms"
  by (induction evs arbitrary: ms) (simp_all add: step_default)

lemma step_list_all:
  assumes "list_all P (engines ms)"
    and dflt: "DEFAULT_BG_THREADS ms = d"
    and init: "\<And>e. JobExecutorEngine_init d = Inr e \<Longrightarrow> P e"
    and sub: "\<And>s e. P e \<Longrightarrow> P (snd (submission_method s e))"
    and shut: "\<And>own_thread wait cancel_pending e.
                 P e \<Longrightarrow> P (snd (shutdown own_thread wait cancel_pending e))"
    and start: "\<And>e. P e \<Longrightarrow> P (worker_start e)"
    and finish: "\<And>k oc e. P e \<Longrightarrow> P (worker_finish k oc e)"
  shows "list_all P (engines (step ev ms))"
proof (cases ev)
  case (Enter tid caller s)
  with assms(1) show ?thesis by (simp add: enter_fields)
next
  case (Resume tid)
  with resume_list_all [of P ms d tid, OF assms(1) dflt init sub] show ?thesis by simp
next
  case (Call tid caller s)
  have "list_all P (engines (enter tid caller s ms))"
    using assms(1) by (simp add: enter_fields)
  then have "list_all P (engines (resume tid (enter tid caller s ms)))"
    by (rule resume_list_all [where d = d]) (simp_all add: enter_fields dflt init sub)
  then have "list_all P (engines (resume tid (resume tid (enter tid caller s ms))))"
    by (rule resume_list_all [where d = d])
       (simp_all add: enter_fields resume_default dflt init sub)
  then have "list_all P (engines (resume tid (resume tid (resume tid (enter tid caller s ms)))))"
    by (rule resume_list_all [where d = d])
       (simp_all add: enter_fields resume_default dflt init sub)
  with Call show ?thesis by simp
next
  case (Shutdown tid caller wait cancel_pending)
  have "list_all P (engines (snd (on_engine a (shutdown own wait cancel_pending) ms)))" for a own
    unfolding on_engine_fields using assms(1) shut by (rule list_all_update)
  with Shutdown assms(1) show ?thesis
    by (auto simp: bg_exec_shutdown_def park_fields split_beta
        split: option.splits sum.splits join_state.splits)
next
  case (Worker_start a)
  with assms(1) start show ?thesis by (simp add: list_all_update)
next
  case (Worker_finish a k oc)
  with assms(1) finish show ?thesis by (simp add: list_all_update)
qed

lemma run_events_list_all:
  assumes "list_all P (engines ms)"
    and dflt: "DEFAULT_BG_THREADS ms = d"
    and init: "\<And>e. JobExecutorEngine_init d = Inr e \<Longrightarrow> P e"
    and sub: "\<And>s e. P e \<Longrightarrow> P (snd (submission_method s e))"
    and shut: "\<And>own_thread wait cancel_pending e.
                 P e \<Longrightarrow> P (snd (shutdown own_thread wait cancel_pending e))"
    and start: "\<And>e. P e \<Longrightarrow> P (worker_start e)"
    and finish: "\<And>k oc e. P e \<Longrightarrow> P (worker_finish k oc e)"
  shows "list_all P (engines (run_events evs ms))"
  using assms(1) dflt
proof (induction evs arbitrary: ms)
  case Nil
  then show ?case by simp
next
  case (Cons ev evs)
  have "list_all P (engines (step ev ms))"
    using Cons.prems init sub shut start finish by (rule step_list_all)
  then show ?case
    using Cons.IH [of "step ev ms"] Cons.prems(2) by (simp add: step_default)
qed





section \<open>What the operations of an engine keep\<close>

lemma init_ok:
  "JobExecutorEngine_init mw = Inr e \<Longrightarrow>
     reservations_ok e \<and> reservations_exact e \<and> \<not> shutdown_flag (executor e)"
  by (auto simp: JobExecutorEngine_init_def ThreadPoolExecutor_init_def reservations_ok_def
      reservations_exact_def unreleased_ids_def split: py_value.splits if_splits sum.splits)

lemma submit_job_ok:
  "reservations_ok e \<Longrightarrow> reservations_ok (snd (submit_job fn kw e))"
  by (auto simp: submit_job_def tpe_submit_def reservations_ok_def unreleased_ids_def)

lemma submit_job_exact:
  "reservations_exact e \<Longrightarrow> reservations_exact (snd (submit_job fn kw e))"
  by (auto simp: submit_job_def tpe_submit_def reservations_exact_def unreleased_ids_def)

lemma submit_job_flag:
  "shutdown_flag (executor (snd (submit_job fn kw e))) = shutdown_flag (executor e)"
  by (auto simp: submit_job_def tpe_submit_def)

lemma submit_job_locked_ok:
  assumes "reservations_ok e" and "run_fn = Run_pre_job \<or> run_fn = Run_post_job"
    and "\<not> kw_clash wrapper_params kw"
  shows "reservations_ok (snd (submit_job_locked job_id run_fn fn kw e))"
  using assms
  by (auto simp: submit_job_locked_def tpe_submit_def reservations_ok_def unreleased_ids_def Let_def)

lemma submit_job_locked_exact:
  assumes "reservations_exact e" and "run_fn = Run_pre_job \<or> run_fn = Run_post_job"
    and "\<not> shutdown_flag (executor e)"
  shows "reservations_exact (snd (submit_job_locked job_id run_fn fn kw e))"
  using assms
  by (auto simp: submit_job_locked_def tpe_submit_def reservations_exact_def unreleased_ids_def Let_def)

lemma submit_job_locked_flag:
  "shutdown_flag (executor (snd (submit_job_locked job_id run_fn fn kw e)))
     = shutdown_flag (executor e)"
  by (auto simp: submit_job_locked_def tpe_submit_def Let_def)

lemma method_ok:
  "reservations_ok e \<Longrightarrow> reservations_ok (snd (submission_method s e))"
  by (cases s)
     (auto simp: submit_job_ok submit_unique_job_pre_def submit_unique_job_post_def
       submit_job_locked_ok wrapper_params_def)

lemma method_flag:
  "shutdown_flag (executor (snd (submission_method s e))) = shutdown_flag (executor e)"
  by (cases s)
     (auto simp: submit_job_flag submit_unique_job_pre_def submit_unique_job_post_def
       submit_job_locked_flag)

lemma method_exact:
  "reservations_exact e \<Longrightarrow> \<not> shutdown_flag (executor e) \<Longrightarrow>
   reservations_exact (snd (submission_method s e))"
  by (cases s)
     (auto simp: submit_job_exact submit_unique_job_pre_def submit_unique_job_post_def
       submit_job_locked_exact)

lemma shutdown_ok:
  "reservations_ok e \<Longrightarrow> reservations_ok (snd (shutdown own_thread wait cancel_pending e))"
  by (auto simp: shutdown_def tpe_shutdown_def reservations_ok_def unreleased_ids_def Let_def
      split_beta)

lemma shutdown_flag_set:
  "shutdown_flag (executor (snd (shutdown own_thread wait cancel_pending e)))"
  by (auto simp: shutdown_def tpe_shutdown_def Let_def split_beta)

lemma worker_start_ok:
  "reservations_ok e \<Longrightarrow> reservations_ok (worker_start e)"
  by (auto simp: worker_start_def job_ids_remove_def reservations_ok_def unreleased_ids_def Let_def
      simp del: set_concat split: list.splits work_item.splits)

lemma worker_start_exact:
  "reservations_ok e \<Longrightarrow> reservations_exact e \<Longrightarrow> reservations_exact (worker_start e)"
  by (auto simp: worker_start_def job_ids_remove_def reservations_ok_def reservations_exact_def
      unreleased_ids_def Let_def simp del: set_concat split: list.splits work_item.splits)

lemma worker_start_flag:
  "shutdown_flag (executor (worker_start e)) = shutdown_flag (executor e)"
  by (auto simp: worker_start_def job_ids_remove_def Let_def
      split: list.splits work_item.splits)


lemma worker_finish_shape:
  assumes "k < length (running (executor e))"
  obtains A B w where "running (executor e) = A @ w # B"
    and "worker_finish k oc e =
           (case w of
              Run_post_job job_id fn kw \<Rightarrow>
                snd (run_post_job job_id kw oc (e\<lparr>executor := (executor e)\<lparr>running := A @ B\<rparr>\<rparr>))
            | Run_pre_job job_id fn kw \<Rightarrow> e\<lparr>executor := (executor e)\<lparr>running := A @ B\<rparr>\<rparr>
            | Plain fn kw \<Rightarrow> e\<lparr>executor := (executor e)\<lparr>running := A @ B\<rparr>\<rparr>)"
proof -
  define A where "A = take k (running (executor e))"
  define B where "B = drop (Suc k) (running (executor e))"
  define w where "w = running (executor e) ! k"
  have "running (executor e) = A @ w # B"
    unfolding A_def B_def w_def using assms by (rule id_take_nth_drop)
  moreover have "worker_finish k oc e =
           (case w of
              Run_post_job job_id fn kw \<Rightarrow>
                snd (run_post_job job_id kw oc (e\<lparr>executor := (executor e)\<lparr>running := A @ B\<rparr>\<rparr>))
            | Run_pre_job job_id fn kw \<Rightarrow> e\<lparr>executor := (executor e)\<lparr>running := A @ B\<rparr>\<rparr>
            | Plain fn kw \<Rightarrow> e\<lparr>executor := (executor e)\<lparr>running := A @ B\<rparr>\<rparr>)"
    unfolding worker_finish_def Let_def A_def B_def w_def using assms by simp
  ultimately show thesis by (rule that)
qed

lemma worker_finish_none:
  "\<not> k < length (running (executor e)) \<Longrightarrow> worker_finish k oc e = e"
  by (simp add: worker_finish_def)

lemma worker_finish_ok:
  assumes "reservations_ok e"
  shows "reservations_ok (worker_finish k oc e)"
proof (cases "k < length (running (executor e))")
  case True
  then obtain A B w where "running (executor e) = A @ w # B"
    and "worker_finish k oc e =
           (case w of
              Run_post_job job_id fn kw \<Rightarrow>
                snd (run_post_job job_id kw oc (e\<lparr>executor := (executor e)\<lparr>running := A @ B\<rparr>\<rparr>))
            | Run_pre_job job_id fn kw \<Rightarrow> e\<lparr>executor := (executor e)\<lparr>running := A @ B\<rparr>\<rparr>
            | Plain fn kw \<Rightarrow> e\<lparr>executor := (executor e)\<lparr>running := A @ B\<rparr>\<rparr>)"
    by (rule worker_finish_shape)
  with assms show ?thesis
    by (cases w)
      (auto simp: reservations_ok_def unreleased_ids_def run_post_job_def job_ids_remove_def
        Let_def simp del: set_concat)
next
  case False
  with assms show ?thesis by (simp add: worker_finish_none)
qed

lemma worker_finish_exact:
  assumes "reservations_ok e" and "reservations_exact e"
  shows "reservations_exact (worker_finish k oc e)"
proof (cases "k < length (running (executor e))")
  case True
  then obtain A B w where "running (executor e) = A @ w # B"
    and "worker_finish k oc e =
           (case w of
              Run_post_job job_id fn kw \<Rightarrow>
                snd (run_post_job job_id kw oc (e\<lparr>executor := (executor e)\<lparr>running := A @ B\<rparr>\<rparr>))
            | Run_pre_job job_id fn kw \<Rightarrow> e\<lparr>executor := (executor e)\<lparr>running := A @ B\<rparr>\<rparr>
            | Plain fn kw \<Rightarrow> e\<lparr>executor := (executor e)\<lparr>running := A @ B\<rparr>\<rparr>)"
    by (rule worker_finish_shape)
  with assms show ?thesis
    by (cases w)
      (auto simp: reservations_ok_def reservations_exact_def unreleased_ids_def run_post_job_def
        job_ids_remove_def Let_def simp del: set_concat)
next
  case False
  with assms show ?thesis by (simp add: worker_finish_none)
qed

lemma worker_finish_flag:
  "shutdown_flag (executor (worker_finish k oc e)) = shutdown_flag (executor e)"
  by (auto simp: worker_finish_def run_post_job_def job_ids_remove_def Let_def
      split: work_item.splits)

section \<open>The reservations of every engine along every run\<close>

lemma run_events_ok:
  assumes "list_all reservations_ok (engines ms)"
  shows "list_all reservations_ok (engines (run_events evs ms))"
  using assms refl
  by (rule run_events_list_all)
     (simp_all add: init_ok method_ok shutdown_ok worker_start_ok worker_finish_ok)

lemma reachable_ok:
  assumes "engines ms0 = []" and "a < length (engines (run_events evs ms0))"
  shows "reservations_ok (engines (run_events evs ms0) ! a)"
  using run_events_ok [of ms0 evs] assms by (simp add: list_all_length)

lemma run_events_exact:
  assumes "list_all (\<lambda>e. reservations_ok e \<and> (shutdown_flag (executor e) \<or> reservations_exact e))
             (engines ms)"
  shows "list_all (\<lambda>e. reservations_ok e \<and> (shutdown_flag (executor e) \<or> reservations_exact e))
           (engines (run_events evs ms))"
  using assms refl
proof (rule run_events_list_all)
  fix e :: "('a, 'b) job_executor_engine"
  assume "JobExecutorEngine_init (DEFAULT_BG_THREADS ms) = Inr e"
  then show "reservations_ok e \<and> (shutdown_flag (executor e) \<or> reservations_exact e)"
    by (simp add: init_ok)
next
  fix s and e :: "('a, 'b) job_executor_engine"
  assume "reservations_ok e \<and> (shutdown_flag (executor e) \<or> reservations_exact e)"
  then show "reservations_ok (snd (submission_method s e))
      \<and> (shutdown_flag (executor (snd (submission_method s e)))
           \<or> reservations_exact (snd (submission_method s e)))"
    by (cases "shutdown_flag (executor e)") (simp_all add: method_ok method_flag method_exact)
next
  fix own_thread wait cancel_pending and e :: "('a, 'b) job_executor_engine"
  assume "reservations_ok e \<and> (shutdown_flag (executor e) \<or> reservations_exact e)"
  then show "reservations_ok (snd (shutdown own_thread wait cancel_pending e))
      \<and> (shutdown_flag (executor (snd (shutdown own_thread wait cancel_pending e)))
           \<or> reservations_exact (snd (shutdown own_thread wait cancel_pending e)))"
    by (simp add: shutdown_ok shutdown_flag_set)
next
  fix e :: "('a, 'b) job_executor_engine"
  assume "reservations_ok e \<and> (shutdown_flag (executor e) \<or> reservations_exact e)"
  then show "reservations_ok (worker_start e)
      \<and> (shutdown_flag (executor (worker_start e)) \<or> reservations_exact (worker_start e))"
    by (auto simp: worker_start_ok worker_start_flag worker_start_exact)
next
  fix k oc and e :: "('a, 'b) job_executor_engine"
  assume "reservations_ok e \<and> (shutdown_flag (executor e) \<or> reservations_exact e)"
  then show "reservations_ok (worker_finish k oc e)
      \<and> (shutdown_flag (executor (worker_finish k oc e))
           \<or> reservations_exact (worker_finish k oc e))"
    by (auto simp: worker_finish_ok worker_finish_flag worker_finish_exact)
qed

text \<open>
  As long as its pool has not been shut down, the reserved set of an engine is exactly the
  set of identifiers of its accepted jobs that have not reached their release point.
\<close>

lemma reservations_exact_before_shutdown:
  assumes "engines ms0 = []" and "a < length (engines (run_events evs ms0))"
    and "\<not> shutdown_flag (executor (engines (run_events evs ms0) ! a))"
  shows "job_ids (engines (run_events evs ms0) ! a)
           = set (unreleased_ids (engines (run_events evs ms0) ! a))"
  using run_events_exact [of ms0 evs] assms
  by (auto simp: list_all_length reservations_exact_def)

text \<open>The definitions a concrete run is evaluated with.\<close>

lemmas executor_defs =
  module_import_def os_getenv_def kw_clash_def get_exec_construct_def get_exec_def on_engine_def
  on_exec_def JobExecutorEngine_init_def ThreadPoolExecutor_init_def tpe_submit_def
  tpe_shutdown_def idle_def submit_job_def submit_job_locked_def submit_unique_job_pre_def
  submit_unique_job_post_def job_ids_remove_def fn_result_def wrapper_params_def run_pre_job_def
  run_post_job_def shutdown_def bg_run_def bg_run_unique_pre_def bg_run_unique_post_def
  bg_exec_shutdown_def worker_start_def worker_finish_def park_def can_call_def enter_def
  resume_def unreleased_ids_def Let_def

section \<open>A whole call and the function it runs\<close>

lemma on_exec_constructed:
  "job_executor ms = Some a \<Longrightarrow> on_exec m ms = on_engine a m ms"
  by (simp add: on_exec_def get_exec_def)

text \<open>
  A submission that no other step overtakes does what the module-level function does, and
  leaves the function's result with the thread.
\<close>

lemma call_runs_function:
  assumes "can_call tid caller ms"
  shows "step (Call tid caller s) ms
           = park tid (Finished (case fst (run_submission s ms) of
                                   Inl err \<Rightarrow> Inl err
                                 | Inr b \<Rightarrow> Inr (Ret_bool b)))
               (snd (run_submission s ms))"
proof -
  have free: "threads ms tid = None"
    using assms by (simp add: can_call_def)
  show ?thesis
  proof (cases "kw_clash (submission_params s) (submission_kwargs s)")
    case True
    with assms show ?thesis
      by (cases s) (simp_all add: enter_def resume_def park_def bg_run_def bg_run_unique_pre_def
          bg_run_unique_post_def)
  next
    case False
    show ?thesis
    proof (cases "job_executor ms")
      case (Some a)
      with assms False show ?thesis
        by (cases s; cases "submission_method s (engines ms ! a)"; cases "fst (submission_method s (engines ms ! a))")
           (simp_all add: enter_def resume_def park_def bg_run_def bg_run_unique_pre_def
             bg_run_unique_post_def on_exec_constructed on_engine_def)
    next
      case None
      show ?thesis
      proof (cases rule: construct_cases [where ms = ms])
        case (failed err)
        with assms False None show ?thesis
          by (cases s)
             (simp_all add: enter_def resume_def park_def bg_run_def bg_run_unique_pre_def
               bg_run_unique_post_def on_exec_def get_exec_def get_exec_construct_def
               split: sum.splits)
      next
        case (constructed e)
        with assms False None show ?thesis
          by (cases s; cases "submission_method s e"; cases "fst (submission_method s e)")
             (simp_all add: enter_def resume_def park_def bg_run_def bg_run_unique_pre_def
               bg_run_unique_post_def on_exec_def get_exec_def get_exec_construct_def
               on_engine_def)
      qed
    qed
  qed
qed


section \<open>Duplicate submissions\<close>

lemma kw_clash_append: "kw_clash (xs @ ys) kw = (kw_clash xs kw \<or> kw_clash ys kw)"
  by (auto simp: kw_clash_def)

lemma on_engine_unchanged:
  "a < length (engines ms) \<Longrightarrow> m (engines ms ! a) = (r, engines ms ! a) \<Longrightarrow>
   on_engine a m ms = (r, ms)"
  by (simp add: on_engine_def)

lemma unique_reserved:
  assumes "job_id \<in> job_ids e"
  shows "submit_unique_job_pre job_id fn kw e
           = (if kw_clash [''self'', ''job_id'', ''fn'', ''run_fn''] kw
              then Inl TypeError else Inr False, e)"
    and "submit_unique_job_post job_id fn kw e
           = (if kw_clash [''self'', ''job_id'', ''fn'', ''run_fn''] kw
              then Inl TypeError else Inr False, e)"
  using assms
  by (auto simp: submit_unique_job_pre_def submit_unique_job_post_def submit_job_locked_def
      kw_clash_def)

text \<open>
  Claim C5, as the code has it. A call of \<^verbatim>\<open>bg_run_unique_pre\<close> or \<^verbatim>\<open>bg_run_unique_post\<close>
  (and of the engine's methods behind them) with an identifier that is in the reserved set
  leaves the module as it was: nothing is handed to the pool and the reserved set is
  unchanged. It returns \<^verbatim>\<open>False\<close>, unless one of its keyword arguments has the name of a
  parameter on the way (\<^verbatim>\<open>id\<close>, \<^verbatim>\<open>fn\<close>, \<^verbatim>\<open>self\<close>, \<^verbatim>\<open>job_id\<close>, \<^verbatim>\<open>run_fn\<close>): then it
  raises \<^verbatim>\<open>TypeError\<close>.
\<close>

theorem duplicate_rejected:
  assumes "job_executor ms = Some a" and "a < length (engines ms)"
    and "job_id \<in> job_ids (engines ms ! a)"
  shows "submit_unique_job_pre job_id fn kw (engines ms ! a)
           = (if kw_clash [''self'', ''job_id'', ''fn'', ''run_fn''] kw
              then Inl TypeError else Inr False, engines ms ! a)
       \<and> submit_unique_job_post job_id fn kw (engines ms ! a)
           = (if kw_clash [''self'', ''job_id'', ''fn'', ''run_fn''] kw
              then Inl TypeError else Inr False, engines ms ! a)
       \<and> bg_run_unique_pre job_id fn kw ms
           = (if kw_clash [''id'', ''fn'', ''self'', ''job_id'', ''run_fn''] kw
              then Inl TypeError else Inr False, ms)
       \<and> bg_run_unique_post job_id fn kw ms
           = (if kw_clash [''id'', ''fn'', ''self'', ''job_id'', ''run_fn''] kw
              then Inl TypeError else Inr False, ms)"
proof -
  note engine = unique_reserved [OF assms(3), of fn kw]
  have "bg_run_unique_pre job_id fn kw ms
           = (if kw_clash [''id'', ''fn'', ''self'', ''job_id'', ''run_fn''] kw
              then Inl TypeError else Inr False, ms)"
    unfolding bg_run_unique_pre_def on_exec_constructed [OF assms(1)]
    using on_engine_unchanged
            [where m = "submit_unique_job_pre job_id fn kw", OF assms(2) engine(1)]
    by (auto simp: kw_clash_def)
  moreover have "bg_run_unique_post job_id fn kw ms
           = (if kw_clash [''id'', ''fn'', ''self'', ''job_id'', ''run_fn''] kw
              then Inl TypeError else Inr False, ms)"
    unfolding bg_run_unique_post_def on_exec_constructed [OF assms(1)]
    using on_engine_unchanged
            [where m = "submit_unique_job_post job_id fn kw", OF assms(2) engine(2)]
    by (auto simp: kw_clash_def)
  ultimately show ?thesis
    using engine by simp
qed

text \<open>
  The claim as stated (every such call returns \<^verbatim>\<open>False\<close> and raises nothing) fails: with
  7 reserved, \<^verbatim>\<open>bg_run_unique_post(7, f, job_id=2)\<close> raises \<^verbatim>\<open>TypeError\<close>, and so does
  \<^verbatim>\<open>bg_run_unique_pre\<close>.
\<close>

theorem duplicate_rejected_counterexample:
  "job_executor (run_events [Call 0 None (Bg_run_unique_post (7::nat) (0::nat) [])]
                   (module_import Map.empty)) = Some 0
   \<and> job_ids (engines (run_events [Call 0 None (Bg_run_unique_post (7::nat) (0::nat) [])]
                          (module_import Map.empty)) ! 0) = {7}
   \<and> fst (bg_run_unique_post 7 0 [''job_id'']
            (run_events [Call 0 None (Bg_run_unique_post (7::nat) (0::nat) [])]
               (module_import Map.empty))) = Inl TypeError
   \<and> fst (bg_run_unique_pre 7 0 [''job_id'']
            (run_events [Call 0 None (Bg_run_unique_post (7::nat) (0::nat) [])]
               (module_import Map.empty))) = Inl TypeError"
  by (simp add: executor_defs)

theorem duplicate_rejected_witness:
  "job_executor (run_events [Call 0 None (Bg_run_unique_post (7::nat) (0::nat) [])]
                   (module_import Map.empty)) = Some 0
   \<and> engines (run_events [Call 0 None (Bg_run_unique_post (7::nat) (0::nat) [])]
                (module_import Map.empty))
       = [\<lparr>executor = \<lparr>max_workers = 4, shutdown_flag = False,
                         work_queue = [Run_post_job 7 0 []], running = [], cancelled = []\<rparr>,
           job_ids = {7}\<rparr>]
   \<and> bg_run_unique_pre 7 5 [''timeout'']
        (run_events [Call 0 None (Bg_run_unique_post (7::nat) (0::nat) [])]
           (module_import Map.empty))
       = (Inr False,
          run_events [Call 0 None (Bg_run_unique_post (7::nat) (0::nat) [])]
            (module_import Map.empty))
   \<and> bg_run_unique_post 7 5 [''timeout'']
        (run_events [Call 0 None (Bg_run_unique_post (7::nat) (0::nat) [])]
           (module_import Map.empty))
       = (Inr False,
          run_events [Call 0 None (Bg_run_unique_post (7::nat) (0::nat) [])]
            (module_import Map.empty))"
proof -
  let ?ms = "run_events [Call 0 None (Bg_run_unique_post (7::nat) (0::nat) [])]
               (module_import Map.empty)"
  have global: "job_executor ?ms = Some 0"
    by (simp add: executor_defs)
  have store: "engines ?ms
       = [\<lparr>executor = \<lparr>max_workers = 4, shutdown_flag = False,
                         work_queue = [Run_post_job 7 0 []], running = [], cancelled = []\<rparr>,
           job_ids = {7}\<rparr>]"
    by (simp add: executor_defs)
  have valid: "0 < length (engines ?ms)"
    by (simp only: store) simp
  have reserved: "7 \<in> job_ids (engines ?ms ! 0)"
    by (simp only: store) simp
  have free: "\<not> kw_clash [''id'', ''fn'', ''self'', ''job_id'', ''run_fn''] [''timeout'']"
    by (simp add: kw_clash_def)
  from duplicate_rejected [OF global valid reserved, of 5 "[''timeout'']"] free global store
  show ?thesis
    by (simp only: if_False simp_thms)
qed


section \<open>Release points\<close>

lemma submit_job_locked_accepts:
  "job_id \<notin> job_ids e \<Longrightarrow> \<not> shutdown_flag (executor e) \<Longrightarrow>
   \<not> kw_clash [''self'', ''job_id'', ''run_fn'', ''fn''] kw \<Longrightarrow>
   fst (submit_job_locked job_id run_fn fn kw e) = Inr True"
  by (simp add: submit_job_locked_def tpe_submit_def Let_def)

lemma unique_accepts:
  assumes "job_id \<notin> job_ids e" and "\<not> shutdown_flag (executor e)"
    and "\<not> kw_clash [''self'', ''job_id'', ''fn'', ''run_fn''] kw"
  shows "fst (submit_unique_job_pre job_id fn kw e) = Inr True"
    and "fst (submit_unique_job_post job_id fn kw e) = Inr True"
  using assms
  by (auto simp: submit_unique_job_pre_def submit_unique_job_post_def submit_job_locked_def
      tpe_submit_def Let_def kw_clash_def)

lemma running_post_unreleased:
  assumes "k < length (running (executor e))"
    and "running (executor e) ! k = Run_post_job job_id fn kw"
  shows "job_id \<in> set (unreleased_ids e)" and "item_bindable (Run_post_job job_id fn kw)
           \<or> \<not> list_all item_bindable (running (executor e))"
proof -
  from assms have "Run_post_job job_id fn kw \<in> set (running (executor e))"
    by (metis nth_mem)
  then show "job_id \<in> set (unreleased_ids e)"
    and "item_bindable (Run_post_job job_id fn kw)
           \<or> \<not> list_all item_bindable (running (executor e))"
    by (force simp: unreleased_ids_def list_all_iff)+
qed

lemma worker_finish_post:
  assumes "k < length (running (executor e))"
    and "running (executor e) ! k = Run_post_job job_id fn kw"
    and "\<not> kw_clash wrapper_params kw"
  shows "job_ids (worker_finish k oc e) = job_ids e - {job_id}"
  using assms
  by (auto simp: worker_finish_def run_post_job_def job_ids_remove_def Let_def)

text \<open>
  Claim C3. In every state the module can reach, when a post wrapper accepted under an
  identifier is running in an engine's pool and its job body ends, by returning or by
  raising, the wrapper's removal runs: the identifier was reserved until then, is no longer
  reserved afterwards, and no unreleased job of that engine holds it. A following
  \<^verbatim>\<open>submit_unique_job_post\<close> on that engine, and a following \<^verbatim>\<open>bg_run_unique_post\<close> when
  the engine is the module's executor, with the same identifier is accepted, the pool not
  having been shut down and the keyword names of the call not colliding with a parameter.
\<close>

theorem post_job_released_on_failure:
  fixes ms0 :: "('id, 'f) module_state"
  assumes "engines ms0 = []"
    and "a < length (engines (run_events evs ms0))"
    and "k < length (running (executor (engines (run_events evs ms0) ! a)))"
    and "running (executor (engines (run_events evs ms0) ! a)) ! k = Run_post_job job_id fn kw"
  shows "job_id \<in> job_ids (engines (run_events evs ms0) ! a)
       \<and> job_ids (engines (step (Worker_finish a k oc) (run_events evs ms0)) ! a)
           = job_ids (engines (run_events evs ms0) ! a) - {job_id}
       \<and> job_id \<notin> set (unreleased_ids
                            (engines (step (Worker_finish a k oc) (run_events evs ms0)) ! a))
       \<and> run_post_job job_id kw oc (engines (run_events evs ms0) ! a)
           = (fn_result oc,
              (engines (run_events evs ms0) ! a)
                \<lparr>job_ids := job_ids (engines (run_events evs ms0) ! a) - {job_id}\<rparr>)
       \<and> (\<not> shutdown_flag
                 (executor (engines (step (Worker_finish a k oc) (run_events evs ms0)) ! a))
            \<and> \<not> kw_clash [''self'', ''job_id'', ''fn'', ''run_fn''] kw'
          \<longrightarrow> fst (submit_unique_job_post job_id fn' kw'
                     (engines (step (Worker_finish a k oc) (run_events evs ms0)) ! a))
                = Inr True)
       \<and> (job_executor (run_events evs ms0) = Some a
            \<and> \<not> shutdown_flag
                   (executor (engines (step (Worker_finish a k oc) (run_events evs ms0)) ! a))
            \<and> \<not> kw_clash [''id'', ''fn'', ''self'', ''job_id'', ''run_fn''] kw'
          \<longrightarrow> fst (bg_run_unique_post job_id fn' kw'
                     (step (Worker_finish a k oc) (run_events evs ms0)))
                = Inr True)"
proof -
  define e where "e = engines (run_events evs ms0) ! a"
  define reached where "reached = step (Worker_finish a k oc) (run_events evs ms0)"
  let ?ms = "run_events evs ms0"
  let ?after = "worker_finish k oc e"
  have ok: "reservations_ok e"
    unfolding e_def using assms(1,2) by (rule reachable_ok)
  have at: "k < length (running (executor e))" "running (executor e) ! k = Run_post_job job_id fn kw"
    using assms(3,4) by (simp_all add: e_def)
  have after: "engines reached ! a = ?after" and global: "job_executor reached = job_executor ?ms"
    and valid: "a < length (engines reached)"
    using assms(2) by (simp_all add: reached_def e_def)
  have ok': "reservations_ok ?after"
    using ok by (rule worker_finish_ok)
  have reserved: "job_id \<in> job_ids e"
    using ok running_post_unreleased(1) [OF at] by (auto simp: reservations_ok_def)
  have bindable: "\<not> kw_clash wrapper_params kw"
    using ok running_post_unreleased(2) [OF at] by (auto simp: reservations_ok_def)
  have released: "job_ids ?after = job_ids e - {job_id}"
    using at bindable by (rule worker_finish_post)
  have gone: "job_id \<notin> set (unreleased_ids ?after)"
    using ok' released by (auto simp: reservations_ok_def)
  have wrapper: "run_post_job job_id kw oc e = (fn_result oc, e\<lparr>job_ids := job_ids e - {job_id}\<rparr>)"
    using reserved bindable by (simp add: run_post_job_def job_ids_remove_def)
  have engine_again: "fst (submit_unique_job_post job_id fn' kw' ?after) = Inr True"
    if "\<not> shutdown_flag (executor ?after)"
      and "\<not> kw_clash [''self'', ''job_id'', ''fn'', ''run_fn''] kw'"
    using that released by (intro unique_accepts) simp_all
  have module_again: "fst (bg_run_unique_post job_id fn' kw' reached) = Inr True"
    if "job_executor ?ms = Some a" and "\<not> shutdown_flag (executor ?after)"
      and "\<not> kw_clash [''id'', ''fn'', ''self'', ''job_id'', ''run_fn''] kw'"
  proof -
    have "job_executor reached = Some a"
      using that(1) global by simp
    moreover have "\<not> kw_clash [''id'', ''fn''] kw'"
      and "\<not> kw_clash [''self'', ''job_id'', ''fn'', ''run_fn''] kw'"
      using that(3) by (auto simp: kw_clash_def)
    ultimately show ?thesis
      using engine_again [OF that(2)] after
      by (simp add: bg_run_unique_post_def on_exec_constructed on_engine_fields)
  qed
  from reserved released gone wrapper engine_again module_again show ?thesis
    unfolding after [unfolded reached_def e_def] e_def reached_def by blast
qed

lemma worker_start_pre:
  assumes "work_queue (executor e) = Run_pre_job job_id fn kw # q"
    and "int (length (running (executor e))) < max_workers (executor e)"
    and "job_id \<in> job_ids e" and "\<not> kw_clash wrapper_params kw"
  shows "job_ids (worker_start e) = job_ids e - {job_id}"
    and "running (executor (worker_start e)) = running (executor e) @ [Run_pre_job job_id fn kw]"
    and "work_queue (executor (worker_start e)) = q"
  using assms
  by (auto simp: worker_start_def job_ids_remove_def Let_def)

text \<open>
  Claim C4. In every state the module can reach, when a worker starts a pre wrapper
  accepted under an identifier, the identifier is removed from the reserved set in that
  step, while the wrapper, whose body is about to run, is among the running items. A
  following \<^verbatim>\<open>submit_unique_job_pre\<close> on that engine, and a following \<^verbatim>\<open>bg_run_unique_pre\<close>
  when the engine is the module's executor, with the same identifier is accepted while
  the body is still running, the pool not having been shut down and the keyword names of
  the call not colliding with a parameter.
\<close>

theorem pre_job_released_at_start:
  fixes ms0 :: "('id, 'f) module_state"
  assumes "engines ms0 = []"
    and "a < length (engines (run_events evs ms0))"
    and "work_queue (executor (engines (run_events evs ms0) ! a)) = Run_pre_job job_id fn kw # q"
    and "int (length (running (executor (engines (run_events evs ms0) ! a))))
           < max_workers (executor (engines (run_events evs ms0) ! a))"
  shows "job_id \<in> job_ids (engines (run_events evs ms0) ! a)
       \<and> job_ids (engines (step (Worker_start a) (run_events evs ms0)) ! a)
           = job_ids (engines (run_events evs ms0) ! a) - {job_id}
       \<and> running (executor (engines (step (Worker_start a) (run_events evs ms0)) ! a))
           = running (executor (engines (run_events evs ms0) ! a)) @ [Run_pre_job job_id fn kw]
       \<and> run_pre_job job_id kw oc (engines (run_events evs ms0) ! a)
           = (fn_result oc,
              (engines (run_events evs ms0) ! a)
                \<lparr>job_ids := job_ids (engines (run_events evs ms0) ! a) - {job_id}\<rparr>)
       \<and> (\<not> shutdown_flag
                 (executor (engines (step (Worker_start a) (run_events evs ms0)) ! a))
            \<and> \<not> kw_clash [''self'', ''job_id'', ''fn'', ''run_fn''] kw'
          \<longrightarrow> fst (submit_unique_job_pre job_id fn' kw'
                     (engines (step (Worker_start a) (run_events evs ms0)) ! a))
                = Inr True)
       \<and> (job_executor (run_events evs ms0) = Some a
            \<and> \<not> shutdown_flag
                   (executor (engines (step (Worker_start a) (run_events evs ms0)) ! a))
            \<and> \<not> kw_clash [''id'', ''fn'', ''self'', ''job_id'', ''run_fn''] kw'
          \<longrightarrow> fst (bg_run_unique_pre job_id fn' kw'
                     (step (Worker_start a) (run_events evs ms0)))
                = Inr True)"
proof -
  define e where "e = engines (run_events evs ms0) ! a"
  define reached where "reached = step (Worker_start a) (run_events evs ms0)"
  let ?ms = "run_events evs ms0"
  let ?after = "worker_start e"
  have ok: "reservations_ok e"
    unfolding e_def using assms(1,2) by (rule reachable_ok)
  have at: "work_queue (executor e) = Run_pre_job job_id fn kw # q"
    "int (length (running (executor e))) < max_workers (executor e)"
    using assms(3,4) by (simp_all add: e_def)
  have after: "engines reached ! a = ?after" and global: "job_executor reached = job_executor ?ms"
    using assms(2) by (simp_all add: reached_def e_def)
  have reserved: "job_id \<in> job_ids e" and bindable: "\<not> kw_clash wrapper_params kw"
    using ok at(1) by (auto simp: reservations_ok_def unreleased_ids_def)
  note started = worker_start_pre [OF at reserved bindable]
  have wrapper: "run_pre_job job_id kw oc e = (fn_result oc, e\<lparr>job_ids := job_ids e - {job_id}\<rparr>)"
    using reserved bindable by (simp add: run_pre_job_def job_ids_remove_def)
  have engine_again: "fst (submit_unique_job_pre job_id fn' kw' ?after) = Inr True"
    if "\<not> shutdown_flag (executor ?after)"
      and "\<not> kw_clash [''self'', ''job_id'', ''fn'', ''run_fn''] kw'"
    using that started(1) by (intro unique_accepts) simp_all
  have module_again: "fst (bg_run_unique_pre job_id fn' kw' reached) = Inr True"
    if "job_executor ?ms = Some a" and "\<not> shutdown_flag (executor ?after)"
      and "\<not> kw_clash [''id'', ''fn'', ''self'', ''job_id'', ''run_fn''] kw'"
  proof -
    have "job_executor reached = Some a"
      using that(1) global by simp
    moreover have "\<not> kw_clash [''id'', ''fn''] kw'"
      and "\<not> kw_clash [''self'', ''job_id'', ''fn'', ''run_fn''] kw'"
      using that(3) by (auto simp: kw_clash_def)
    ultimately show ?thesis
      using engine_again [OF that(2)] after
      by (simp add: bg_run_unique_pre_def on_exec_constructed on_engine_fields)
  qed
  from reserved started(1,2) wrapper engine_again module_again show ?thesis
    unfolding after [unfolded reached_def e_def] e_def reached_def by blast
qed

theorem post_job_released_on_failure_witness:
  "engines (run_events [Call 0 None (Bg_run_unique_post (1::nat) (0::nat) []), Worker_start 0]
              (module_import Map.empty))
     = [\<lparr>executor = \<lparr>max_workers = 4, shutdown_flag = False, work_queue = [],
                       running = [Run_post_job 1 0 []], cancelled = []\<rparr>,
         job_ids = {1}\<rparr>]
   \<and> engines (step (Worker_finish 0 0 Raised)
                (run_events [Call 0 None (Bg_run_unique_post (1::nat) (0::nat) []), Worker_start 0]
                   (module_import Map.empty)))
     = [\<lparr>executor = \<lparr>max_workers = 4, shutdown_flag = False, work_queue = [],
                       running = [], cancelled = []\<rparr>,
         job_ids = {}\<rparr>]
   \<and> fst (bg_run_unique_post 1 5 [''timeout'']
            (step (Worker_finish 0 0 Raised)
               (run_events [Call 0 None (Bg_run_unique_post (1::nat) (0::nat) []), Worker_start 0]
                  (module_import Map.empty)))) = Inr True"
proof -
  let ?ms0 = "module_import Map.empty :: (nat, nat) module_state"
  let ?evs = "[Call 0 None (Bg_run_unique_post (1::nat) (0::nat) []), Worker_start 0]"
  have fresh: "engines ?ms0 = []"
    by (simp add: module_import_def)
  have before: "engines (run_events ?evs ?ms0)
     = [\<lparr>executor = \<lparr>max_workers = 4, shutdown_flag = False, work_queue = [],
                       running = [Run_post_job 1 0 []], cancelled = []\<rparr>,
         job_ids = {1}\<rparr>]"
    by (simp add: executor_defs)
  have global: "job_executor (run_events ?evs ?ms0) = Some 0"
    by (simp add: executor_defs)
  have after: "engines (step (Worker_finish 0 0 Raised) (run_events ?evs ?ms0))
     = [\<lparr>executor = \<lparr>max_workers = 4, shutdown_flag = False, work_queue = [],
                       running = [], cancelled = []\<rparr>,
         job_ids = {}\<rparr>]"
    by (simp add: executor_defs)
  have valid: "0 < length (engines (run_events ?evs ?ms0))"
    by (simp only: before) simp
  have slot: "0 < length (running (executor (engines (run_events ?evs ?ms0) ! 0)))"
    by (simp only: before) simp
  have item: "running (executor (engines (run_events ?evs ?ms0) ! 0)) ! 0 = Run_post_job 1 0 []"
    by (simp only: before) simp
  have free: "\<not> kw_clash [''id'', ''fn'', ''self'', ''job_id'', ''run_fn''] [''timeout'']"
    by (simp add: kw_clash_def)
  have open_pool: "\<not> shutdown_flag
      (executor (engines (step (Worker_finish 0 0 Raised) (run_events ?evs ?ms0)) ! 0))"
    by (simp only: after) simp
  from post_job_released_on_failure
         [where oc = Raised and fn' = 5 and kw' = "[''timeout'']", OF fresh valid slot item]
       global open_pool free
  have "fst (bg_run_unique_post 1 5 [''timeout'']
              (step (Worker_finish 0 0 Raised) (run_events ?evs ?ms0))) = Inr True"
    by blast
  with before after show ?thesis
    by (simp only: simp_thms)
qed

theorem pre_job_released_at_start_witness:
  "engines (run_events [Call 0 None (Bg_run_unique_pre (1::nat) (0::nat) [])]
              (module_import Map.empty))
     = [\<lparr>executor = \<lparr>max_workers = 4, shutdown_flag = False,
                       work_queue = [Run_pre_job 1 0 []], running = [], cancelled = []\<rparr>,
         job_ids = {1}\<rparr>]
   \<and> engines (step (Worker_start 0)
                (run_events [Call 0 None (Bg_run_unique_pre (1::nat) (0::nat) [])]
                   (module_import Map.empty)))
     = [\<lparr>executor = \<lparr>max_workers = 4, shutdown_flag = False, work_queue = [],
                       running = [Run_pre_job 1 0 []], cancelled = []\<rparr>,
         job_ids = {}\<rparr>]
   \<and> fst (bg_run_unique_pre 1 5 [''timeout'']
            (step (Worker_start 0)
               (run_events [Call 0 None (Bg_run_unique_pre (1::nat) (0::nat) [])]
                  (module_import Map.empty)))) = Inr True"
proof -
  let ?ms0 = "module_import Map.empty :: (nat, nat) module_state"
  let ?evs = "[Call 0 None (Bg_run_unique_pre (1::nat) (0::nat) [])]"
  have fresh: "engines ?ms0 = []"
    by (simp add: module_import_def)
  have before: "engines (run_events ?evs ?ms0)
     = [\<lparr>executor = \<lparr>max_workers = 4, shutdown_flag = False,
                       work_queue = [Run_pre_job 1 0 []], running = [], cancelled = []\<rparr>,
         job_ids = {1}\<rparr>]"
    by (simp add: executor_defs)
  have global: "job_executor (run_events ?evs ?ms0) = Some 0"
    by (simp add: executor_defs)
  have after: "engines (step (Worker_start 0) (run_events ?evs ?ms0))
     = [\<lparr>executor = \<lparr>max_workers = 4, shutdown_flag = False, work_queue = [],
                       running = [Run_pre_job 1 0 []], cancelled = []\<rparr>,
         job_ids = {}\<rparr>]"
    by (simp add: executor_defs)
  have valid: "0 < length (engines (run_events ?evs ?ms0))"
    by (simp only: before) simp
  have head: "work_queue (executor (engines (run_events ?evs ?ms0) ! 0)) = Run_pre_job 1 0 [] # []"
    by (simp only: before) simp
  have room: "int (length (running (executor (engines (run_events ?evs ?ms0) ! 0))))
                < max_workers (executor (engines (run_events ?evs ?ms0) ! 0))"
    by (simp only: before) simp
  have free: "\<not> kw_clash [''id'', ''fn'', ''self'', ''job_id'', ''run_fn''] [''timeout'']"
    by (simp add: kw_clash_def)
  have open_pool: "\<not> shutdown_flag
      (executor (engines (step (Worker_start 0) (run_events ?evs ?ms0)) ! 0))"
    by (simp only: after) simp
  from pre_job_released_at_start
         [where oc = Returned and fn' = 5 and kw' = "[''timeout'']", OF fresh valid head room]
       global open_pool free
  have "fst (bg_run_unique_pre 1 5 [''timeout'']
              (step (Worker_start 0) (run_events ?evs ?ms0))) = Inr True"
    by blast
  with before after show ?thesis
    by (simp only: simp_thms)
qed

section \<open>Two first calls at the same time\<close>

text \<open>
  Claim C7 at a run where it breaks. Two threads call \<^verbatim>\<open>bg_run_unique_post(7, f)\<close> before
  any executor exists. Both find \<^verbatim>\<open>_job_executor is None\<close> in \<^verbatim>\<open>_get_exec\<close>, which
  takes no lock; thread 1 constructs an engine, assigns it and submits to it; thread 2
  then constructs a second engine, assigns it over the first and submits to that one. Both
  calls return \<^verbatim>\<open>True\<close>: two accepted jobs under the identifier 7 are reserved at the same
  time, each in the reserved set of its own engine, and after both pools have started
  their item the two job bodies run at the same time.
\<close>

theorem concurrent_first_calls_both_accepted:
  "engines (run_events [Enter 1 None (Bg_run_unique_post (7::nat) (0::nat) []),
                        Enter 2 None (Bg_run_unique_post 7 0 []),
                        Resume 1, Resume 1, Resume 1, Resume 2, Resume 2, Resume 2]
              (module_import Map.empty))
     = [\<lparr>executor = \<lparr>max_workers = 4, shutdown_flag = False,
                       work_queue = [Run_post_job 7 0 []], running = [], cancelled = []\<rparr>,
         job_ids = {7}\<rparr>,
        \<lparr>executor = \<lparr>max_workers = 4, shutdown_flag = False,
                       work_queue = [Run_post_job 7 0 []], running = [], cancelled = []\<rparr>,
         job_ids = {7}\<rparr>]
   \<and> threads (run_events [Enter 1 None (Bg_run_unique_post (7::nat) (0::nat) []),
                          Enter 2 None (Bg_run_unique_post 7 0 []),
                          Resume 1, Resume 1, Resume 1, Resume 2, Resume 2, Resume 2]
                (module_import Map.empty)) 1 = Some (Finished (Inr (Ret_bool True)))
   \<and> threads (run_events [Enter 1 None (Bg_run_unique_post (7::nat) (0::nat) []),
                          Enter 2 None (Bg_run_unique_post 7 0 []),
                          Resume 1, Resume 1, Resume 1, Resume 2, Resume 2, Resume 2]
                (module_import Map.empty)) 2 = Some (Finished (Inr (Ret_bool True)))
   \<and> job_executor (run_events [Enter 1 None (Bg_run_unique_post (7::nat) (0::nat) []),
                               Enter 2 None (Bg_run_unique_post 7 0 []),
                               Resume 1, Resume 1, Resume 1, Resume 2, Resume 2, Resume 2]
                     (module_import Map.empty)) = Some 1
   \<and> engines (run_events [Enter 1 None (Bg_run_unique_post (7::nat) (0::nat) []),
                          Enter 2 None (Bg_run_unique_post 7 0 []),
                          Resume 1, Resume 1, Resume 1, Resume 2, Resume 2, Resume 2,
                          Worker_start 0, Worker_start 1]
                (module_import Map.empty))
     = [\<lparr>executor = \<lparr>max_workers = 4, shutdown_flag = False, work_queue = [],
                       running = [Run_post_job 7 0 []], cancelled = []\<rparr>,
         job_ids = {7}\<rparr>,
        \<lparr>executor = \<lparr>max_workers = 4, shutdown_flag = False, work_queue = [],
                       running = [Run_post_job 7 0 []], cancelled = []\<rparr>,
         job_ids = {7}\<rparr>]"
  by (simp add: executor_defs)

section \<open>The reserved set and the unreleased jobs\<close>

text \<open>
  Claim C6 at a run where it breaks: after a shutdown, \<^verbatim>\<open>bg_run_unique_post\<close> with a free
  identifier raises \<^verbatim>\<open>RuntimeError\<close>, so no job is accepted, and yet the identifier is in
  the reserved set afterwards, while no unreleased job exists at all.
\<close>

theorem reservation_without_job_after_shutdown:
  "fst (bg_run_unique_post (7::nat) (0::nat) []
          (run_events [Call 0 None (Bg_run 0 []), Shutdown 1 None False True]
             (module_import Map.empty)))
     = Inl RuntimeError
   \<and> threads (run_events [Call 0 None (Bg_run 0 []), Shutdown 1 None False True,
                          Call 2 None (Bg_run_unique_post (7::nat) (0::nat) [])]
                (module_import Map.empty)) 2 = Some (Finished (Inl RuntimeError))
   \<and> engines (run_events [Call 0 None (Bg_run 0 []), Shutdown 1 None False True,
                          Call 2 None (Bg_run_unique_post 7 0 [])]
                (module_import Map.empty))
     = [\<lparr>executor = \<lparr>max_workers = 4, shutdown_flag = True, work_queue = [],
                       running = [], cancelled = [Plain (0::nat) []]\<rparr>,
         job_ids = {7::nat}\<rparr>]
   \<and> unreleased_ids \<lparr>executor = \<lparr>max_workers = 4, shutdown_flag = True, work_queue = [],
                          running = [], cancelled = [Plain (0::nat) []]\<rparr>,
             job_ids = {7::nat}\<rparr> = []"
  by (simp add: executor_defs)

section \<open>Submissions after shutdown\<close>












section \<open>The size of the pool\<close>

lemma init_sized:
  "JobExecutorEngine_init (PyInt n) = Inr e \<Longrightarrow>
     max_workers (executor e) = n \<and> int (length (running (executor e))) \<le> n"
  by (auto simp: JobExecutorEngine_init_def ThreadPoolExecutor_init_def split: if_splits)

lemma method_sized:
  "max_workers (executor (snd (submission_method s e))) = max_workers (executor e)
   \<and> running (executor (snd (submission_method s e))) = running (executor e)"
  by (cases s)
     (auto simp: submit_job_def submit_unique_job_pre_def submit_unique_job_post_def
       submit_job_locked_def tpe_submit_def Let_def)

lemma shutdown_sized:
  "max_workers (executor (snd (shutdown own_thread wait cancel_pending e)))
     = max_workers (executor e)
   \<and> running (executor (snd (shutdown own_thread wait cancel_pending e))) = running (executor e)"
  by (auto simp: shutdown_def tpe_shutdown_def Let_def split_beta)

lemma worker_start_sized:
  assumes "max_workers (executor e) = n \<and> int (length (running (executor e))) \<le> n"
  shows "max_workers (executor (worker_start e)) = n
       \<and> int (length (running (executor (worker_start e)))) \<le> n"
  using assms
  by (auto simp: worker_start_def job_ids_remove_def Let_def
      split: list.splits work_item.splits)

lemma worker_finish_sized:
  assumes "max_workers (executor e) = n \<and> int (length (running (executor e))) \<le> n"
  shows "max_workers (executor (worker_finish k oc e)) = n
       \<and> int (length (running (executor (worker_finish k oc e)))) \<le> n"
  using assms
  by (auto simp: worker_finish_def run_post_job_def job_ids_remove_def Let_def
      split: work_item.splits)

lemma run_events_sized:
  assumes "list_all (\<lambda>e. max_workers (executor e) = n \<and> int (length (running (executor e))) \<le> n)
             (engines ms)"
    and "DEFAULT_BG_THREADS ms = PyInt n"
  shows "list_all (\<lambda>e. max_workers (executor e) = n \<and> int (length (running (executor e))) \<le> n)
           (engines (run_events evs ms))"
  using assms
  by (rule run_events_list_all)
     (simp_all add: init_sized method_sized shutdown_sized worker_start_sized worker_finish_sized)

lemma resume_valid: "global_valid ms \<Longrightarrow> global_valid (resume tid ms)"
  by (auto simp: global_valid_def resume_def park_def on_engine_def get_exec_construct_def
      split_beta split: option.splits thread_state.splits sum.splits)

lemma step_valid: "global_valid ms \<Longrightarrow> global_valid (step ev ms)"
proof (cases ev)
  case (Enter tid caller s)
  assume "global_valid ms"
  with Enter show ?thesis by (simp add: global_valid_def enter_fields split: option.splits)
next
  case (Resume tid)
  assume "global_valid ms"
  with Resume show ?thesis by (simp add: resume_valid)
next
  case (Call tid caller s)
  assume "global_valid ms"
  then have "global_valid (enter tid caller s ms)"
    by (simp add: global_valid_def enter_fields split: option.splits)
  with Call show ?thesis by (simp add: resume_valid)
next
  case (Shutdown tid caller wait cancel_pending)
  assume "global_valid ms"
  with Shutdown show ?thesis
    by (auto simp: global_valid_def bg_exec_shutdown_def on_engine_def park_def split_beta
        split: option.splits sum.splits join_state.splits)
next
  case (Worker_start a)
  assume "global_valid ms"
  with Worker_start show ?thesis by (simp add: global_valid_def split: option.splits)
next
  case (Worker_finish a k oc)
  assume "global_valid ms"
  with Worker_finish show ?thesis by (simp add: global_valid_def split: option.splits)
qed

lemma run_events_valid: "global_valid ms \<Longrightarrow> global_valid (run_events evs ms)"
  by (induction evs arbitrary: ms) (simp_all add: step_valid)

text \<open>
  Claim C2, as the code has it. When \<^verbatim>\<open>ENGINE_BACKGROUND_THREADS\<close> is unset at the time
  the module is imported, \<^verbatim>\<open>DEFAULT_BG_THREADS\<close> is 4, the lazily constructed engine has a
  pool of 4 workers, and in every state the module reaches afterwards every engine that has
  been constructed, the module's executor among them, has a pool of size 4 with at most 4
  items running.
\<close>

theorem default_pool_size:
  assumes "env ''ENGINE_BACKGROUND_THREADS'' = None"
    and "a < length (engines (run_events evs (module_import env :: ('id, 'f) module_state)))"
  shows "DEFAULT_BG_THREADS (module_import env :: ('id, 'f) module_state) = PyInt 4
       \<and> get_exec (module_import env :: ('id, 'f) module_state)
           = (Inr (Some 0),
              (module_import env)
                \<lparr>engines := [\<lparr>executor = \<lparr>max_workers = 4, shutdown_flag = False,
                                              work_queue = [], running = [], cancelled = []\<rparr>,
                                job_ids = {}\<rparr>],
                  job_executor := Some 0\<rparr>)
       \<and> max_workers (executor (engines (run_events evs
                                  (module_import env :: ('id, 'f) module_state)) ! a)) = 4
       \<and> int (length (running (executor (engines (run_events evs
                (module_import env :: ('id, 'f) module_state)) ! a)))) \<le> 4
       \<and> global_valid (run_events evs (module_import env :: ('id, 'f) module_state))"
proof -
  let ?ms0 = "module_import env :: ('id, 'f) module_state"
  have imported: "DEFAULT_BG_THREADS ?ms0 = PyInt 4"
    using assms(1) by (simp add: module_import_def os_getenv_def)
  have "list_all (\<lambda>e. max_workers (executor e) = 4 \<and> int (length (running (executor e))) \<le> 4)
          (engines ?ms0)"
    by (simp add: module_import_def)
  then have "list_all (\<lambda>e. max_workers (executor e) = 4 \<and> int (length (running (executor e))) \<le> 4)
          (engines (run_events evs ?ms0))"
    using imported by (rule run_events_sized)
  with assms(2) have sized: "max_workers (executor (engines (run_events evs ?ms0) ! a)) = 4
      \<and> int (length (running (executor (engines (run_events evs ?ms0) ! a)))) \<le> 4"
    by (simp add: list_all_length)
  have "global_valid ?ms0"
    by (simp add: global_valid_def module_import_def)
  then have valid: "global_valid (run_events evs ?ms0)"
    by (rule run_events_valid)
  have first: "get_exec ?ms0
           = (Inr (Some 0),
              ?ms0\<lparr>engines := [\<lparr>executor = \<lparr>max_workers = 4, shutdown_flag = False,
                                              work_queue = [], running = [], cancelled = []\<rparr>,
                                job_ids = {}\<rparr>],
                    job_executor := Some 0\<rparr>)"
    using assms(1)
    by (simp add: get_exec_def get_exec_construct_def module_import_def os_getenv_def
        JobExecutorEngine_init_def ThreadPoolExecutor_init_def)
  from imported first sized valid show ?thesis
    by blast
qed

text \<open>
  The claim as stated (the size is 4 when the setting cannot be parsed) fails: with the
  setting \<^verbatim>\<open>abc\<close> the default is that string, and the first submission raises
  \<^verbatim>\<open>TypeError\<close> while constructing the pool, leaving no executor.
\<close>

theorem default_pool_size_counterexample:
  "DEFAULT_BG_THREADS
     (module_import [''ENGINE_BACKGROUND_THREADS'' \<mapsto> ''abc''] :: (nat, nat) module_state)
     = PyStr ''abc''
   \<and> bg_run (0::nat) []
       (module_import [''ENGINE_BACKGROUND_THREADS'' \<mapsto> ''abc''] :: (nat, nat) module_state)
     = (Inl TypeError, module_import [''ENGINE_BACKGROUND_THREADS'' \<mapsto> ''abc''])
   \<and> job_executor
       (run_events [Call 0 None (Bg_run (0::nat) [])]
          (module_import [''ENGINE_BACKGROUND_THREADS'' \<mapsto> ''abc''] :: (nat, nat) module_state))
     = None
   \<and> engines
       (run_events [Call 0 None (Bg_run (0::nat) [])]
          (module_import [''ENGINE_BACKGROUND_THREADS'' \<mapsto> ''abc''] :: (nat, nat) module_state))
     = []"
  by (simp add: executor_defs)

theorem default_pool_size_witness:
  "Map.empty ''ENGINE_BACKGROUND_THREADS'' = (None :: string option)
   \<and> engines (run_events [Call 0 None (Bg_run (0::nat) []), Call 1 None (Bg_run 2 []),
                          Worker_start 0]
        (module_import Map.empty :: (nat, nat) module_state))
     = [\<lparr>executor = \<lparr>max_workers = 4, shutdown_flag = False, work_queue = [Plain 2 []],
                       running = [Plain 0 []], cancelled = []\<rparr>,
         job_ids = {}\<rparr>]
   \<and> DEFAULT_BG_THREADS (module_import Map.empty :: (nat, nat) module_state) = PyInt 4
   \<and> fst (get_exec (module_import Map.empty :: (nat, nat) module_state)) = Inr (Some 0)
   \<and> global_valid (run_events [Call 0 None (Bg_run (0::nat) []), Call 1 None (Bg_run 2 []),
                               Worker_start 0]
        (module_import Map.empty :: (nat, nat) module_state))"
proof -
  let ?ms = "run_events [Call 0 None (Bg_run (0::nat) []), Call 1 None (Bg_run 2 []),
                         Worker_start 0]
        (module_import Map.empty :: (nat, nat) module_state)"
  have unset: "Map.empty ''ENGINE_BACKGROUND_THREADS'' = (None :: string option)"
    by simp
  have reached: "engines ?ms
     = [\<lparr>executor = \<lparr>max_workers = 4, shutdown_flag = False, work_queue = [Plain 2 []],
                       running = [Plain 0 []], cancelled = []\<rparr>,
         job_ids = {}\<rparr>]"
    by (simp add: executor_defs)
  have valid: "0 < length (engines ?ms)"
    by (simp only: reached) simp
  from default_pool_size [OF unset valid] reached unset show ?thesis
    by simp
qed

section \<open>Shutting down\<close>

lemma only_shutdowns:
  assumes "job_executor ms = None"
  shows "job_executor
           (run_events (map (\<lambda>(tid, caller, wait, cancel_pending).
                               Shutdown tid caller wait cancel_pending) calls) ms) = None
       \<and> engines
           (run_events (map (\<lambda>(tid, caller, wait, cancel_pending).
                               Shutdown tid caller wait cancel_pending) calls) ms) = engines ms
       \<and> (\<forall>tid. threads
                  (run_events (map (\<lambda>(tid, caller, wait, cancel_pending).
                                      Shutdown tid caller wait cancel_pending) calls) ms) tid
                  = threads ms tid
               \<or> threads
                  (run_events (map (\<lambda>(tid, caller, wait, cancel_pending).
                                      Shutdown tid caller wait cancel_pending) calls) ms) tid
                  = Some (Finished (Inr Ret_none)))"
  using assms
proof (induction calls arbitrary: ms)
  case Nil
  then show ?case by simp
next
  case (Cons c calls)
  obtain tid caller wait cancel_pending where c: "c = (tid, caller, wait, cancel_pending)"
    by (cases c) auto
  let ?next = "step (Shutdown tid caller wait cancel_pending) ms"
  have one: "job_executor ?next = None" "engines ?next = engines ms"
    "\<forall>t. threads ?next t = threads ms t \<or> threads ?next t = Some (Finished (Inr Ret_none))"
    using Cons.prems by (auto simp: bg_exec_shutdown_def park_def can_call_def)
  from Cons.IH [OF one(1)] one(2,3) show ?case
    unfolding c by (simp del: step.simps) metis
qed

lemma bg_exec_shutdown_global:
  "job_executor (snd (bg_exec_shutdown caller wait cancel_pending ms)) = job_executor ms"
  by (simp add: bg_exec_shutdown_def on_engine_fields split: option.splits)

lemma bg_exec_shutdown_raises:
  "(fst (bg_exec_shutdown caller wait cancel_pending ms) = Inl err)
     = (err = RuntimeError \<and> wait \<and> caller \<noteq> None \<and> caller = job_executor ms)"
  by (auto simp: bg_exec_shutdown_def on_engine_def shutdown_def tpe_shutdown_def Let_def
      split_beta split: option.splits)

text \<open>
  Claim C8, as the code has it. When the executor was never constructed,
  \<^verbatim>\<open>bg_exec_shutdown\<close> returns with the module unchanged (nothing is constructed), and any
  sequence of shutdown calls made without any submission leaves the module without an
  executor and without an engine, each call returning \<^verbatim>\<open>None\<close>. A call, the first or a
  later one, raises exactly when it is made with \<^verbatim>\<open>wait=True\<close> from a job body that runs
  in the pool of the module's executor (\<^verbatim>\<open>RuntimeError\<close>: cannot join current thread);
  nothing else is ever raised. A call that is blocked in the join returns \<^verbatim>\<open>None\<close> once
  the pool has no work left.
\<close>

theorem shutdown_raises_only_joining_itself:
  "(job_executor ms = None \<longrightarrow>
      bg_exec_shutdown caller wait cancel_pending ms = (Inr Completed, ms)
      \<and> job_executor
          (run_events (map (\<lambda>(tid, caller, wait, cancel_pending).
                              Shutdown tid caller wait cancel_pending) calls) ms) = None
      \<and> engines
          (run_events (map (\<lambda>(tid, caller, wait, cancel_pending).
                              Shutdown tid caller wait cancel_pending) calls) ms) = engines ms
      \<and> (threads
           (run_events (map (\<lambda>(tid, caller, wait, cancel_pending).
                               Shutdown tid caller wait cancel_pending) calls) ms) tid
           = threads ms tid
         \<or> threads
           (run_events (map (\<lambda>(tid, caller, wait, cancel_pending).
                               Shutdown tid caller wait cancel_pending) calls) ms) tid
           = Some (Finished (Inr Ret_none))))
   \<and> (fst (bg_exec_shutdown caller wait cancel_pending ms) = Inl err)
       = (err = RuntimeError \<and> wait \<and> caller \<noteq> None \<and> caller = job_executor ms)
   \<and> (fst (bg_exec_shutdown caller' wait' cancel_pending'
              (snd (bg_exec_shutdown caller wait cancel_pending ms))) = Inl err)
       = (err = RuntimeError \<and> wait' \<and> caller' \<noteq> None \<and> caller' = job_executor ms)
   \<and> (threads ms tid' = Some (At_join a) \<and> idle (executor (engines ms ! a)) \<longrightarrow>
        threads (step (Resume tid') ms) tid' = Some (Finished (Inr Ret_none)))"
proof -
  have "bg_exec_shutdown caller wait cancel_pending ms = (Inr Completed, ms)"
    if "job_executor ms = None"
    using that by (simp add: bg_exec_shutdown_def)
  moreover have "threads (step (Resume tid') ms) tid' = Some (Finished (Inr Ret_none))"
    if "threads ms tid' = Some (At_join a)" and "idle (executor (engines ms ! a))"
    using that by (simp add: resume_def park_def)
  ultimately show ?thesis
    using only_shutdowns [of ms calls] bg_exec_shutdown_raises [of caller wait cancel_pending ms err]
      bg_exec_shutdown_raises
        [of caller' wait' cancel_pending' "snd (bg_exec_shutdown caller wait cancel_pending ms)" err]
    by (simp only: bg_exec_shutdown_global) blast
qed

text \<open>
  The claim as stated (calling shutdown twice does not raise) fails: a job body that calls
  \<^verbatim>\<open>bg_exec_shutdown(wait=True)\<close>, after the main thread has called
  \<^verbatim>\<open>bg_exec_shutdown()\<close>, joins its own thread and raises \<^verbatim>\<open>RuntimeError\<close>; so does such
  a call when it is the first.
\<close>

theorem shutdown_raises_only_joining_itself_counterexample:
  "running (executor (engines
      (run_events [Call 0 None (Bg_run (0::nat) []), Worker_start 0, Shutdown 1 None False True]
         (module_import Map.empty :: (nat, nat) module_state)) ! 0)) = [Plain 0 []]
   \<and> threads
      (run_events [Call 0 None (Bg_run (0::nat) []), Worker_start 0, Shutdown 1 None False True]
         (module_import Map.empty :: (nat, nat) module_state)) 1 = Some (Finished (Inr Ret_none))
   \<and> fst (bg_exec_shutdown (Some 0) True True
        (run_events [Call 0 None (Bg_run (0::nat) []), Worker_start 0, Shutdown 1 None False True]
           (module_import Map.empty :: (nat, nat) module_state))) = Inl RuntimeError
   \<and> threads
      (run_events [Call 0 None (Bg_run (0::nat) []), Worker_start 0, Shutdown 1 None False True,
                   Shutdown 2 (Some 0) True True]
         (module_import Map.empty :: (nat, nat) module_state)) 2
       = Some (Finished (Inl RuntimeError))
   \<and> fst (bg_exec_shutdown (Some 0) True True
        (run_events [Call 0 None (Bg_run (0::nat) []), Worker_start 0]
           (module_import Map.empty :: (nat, nat) module_state))) = Inl RuntimeError"
  by (simp add: executor_defs)

theorem shutdown_raises_only_joining_itself_witness:
  "job_executor (module_import Map.empty :: (nat, nat) module_state) = None
   \<and> bg_exec_shutdown None False True (module_import Map.empty :: (nat, nat) module_state)
       = (Inr Completed, module_import Map.empty)
   \<and> job_executor
       (run_events [Shutdown 0 None False True, Shutdown 1 None True False]
          (module_import Map.empty :: (nat, nat) module_state)) = None
   \<and> engines
       (run_events [Shutdown 0 None False True, Shutdown 1 None True False]
          (module_import Map.empty :: (nat, nat) module_state)) = []
   \<and> threads
       (run_events [Shutdown 0 None False True, Shutdown 1 None True False]
          (module_import Map.empty :: (nat, nat) module_state)) 1
       = Some (Finished (Inr Ret_none))
   \<and> threads
       (run_events [Call 0 None (Bg_run (0::nat) []), Worker_start 0, Shutdown 1 None True True]
          (module_import Map.empty :: (nat, nat) module_state)) 1 = Some (At_join 0)
   \<and> threads
       (step (Resume 1)
          (run_events [Call 0 None (Bg_run (0::nat) []), Worker_start 0, Shutdown 1 None True True,
                       Worker_finish 0 0 Returned]
             (module_import Map.empty :: (nat, nat) module_state))) 1
       = Some (Finished (Inr Ret_none))"
proof -
  let ?ms0 = "module_import Map.empty :: (nat, nat) module_state"
  let ?calls = "[(0, None, False, True), (1, None, True, False)] :: (nat \<times> nat option \<times> bool \<times> bool) list"
  let ?joined = "run_events [Call 0 None (Bg_run (0::nat) []), Worker_start 0,
                             Shutdown 1 None True True, Worker_finish 0 0 Returned] ?ms0"
  let ?shut = "run_events [Shutdown 0 None False True, Shutdown 1 None True False] ?ms0"
  have unconstructed: "job_executor ?ms0 = None"
    by (simp add: module_import_def)
  have fresh: "engines ?ms0 = []" "threads ?ms0 1 = None"
    by (simp_all add: module_import_def)
  have called: "threads ?shut 1 \<noteq> None"
    by (simp add: executor_defs)
  have blocked: "threads (run_events [Call 0 None (Bg_run (0::nat) []), Worker_start 0,
                                      Shutdown 1 None True True] ?ms0) 1 = Some (At_join 0)"
    by (simp add: executor_defs)
  have joining: "threads ?joined 1 = Some (At_join 0)"
    by (simp add: executor_defs)
  have drained: "idle (executor (engines ?joined ! 0))"
    by (simp add: executor_defs)
  have events: "map (\<lambda>(tid, caller, wait, cancel_pending). Shutdown tid caller wait cancel_pending)
                  ?calls
                = ([Shutdown 0 None False True, Shutdown 1 None True False]
                     :: (nat, nat) event list)"
    by simp
  note first = shutdown_raises_only_joining_itself
         [where ms = ?ms0 and caller = None and wait = False and cancel_pending = True
            and calls = ?calls and tid = 1, unfolded events]
  from first unconstructed
  have noop: "bg_exec_shutdown None False True ?ms0 = (Inr Completed, ?ms0)"
    and global: "job_executor ?shut = None"
    and store: "engines ?shut = engines ?ms0"
    and thread: "threads ?shut 1 = threads ?ms0 1
               \<or> threads ?shut 1 = Some (Finished (Inr Ret_none))"
    by blast+
  from thread fresh(2) called have returned: "threads ?shut 1 = Some (Finished (Inr Ret_none))"
    by metis
  from shutdown_raises_only_joining_itself [where ms = ?joined and tid' = 1 and a = 0]
    joining drained
  have resumed: "threads (step (Resume 1) ?joined) 1 = Some (Finished (Inr Ret_none))"
    by blast
  from unconstructed noop global store [unfolded fresh(1)] returned blocked resumed
  show ?thesis
    by blast
qed

section \<open>The digest of a file\<close>

lemma concat_chunks: "0 < n \<Longrightarrow> concat (fixed_size_chunks n xs) = xs"
  by (induction n xs rule: fixed_size_chunks.induct) (subst fixed_size_chunks.simps, simp)

lemma chunk_sizes:
  "c \<in> set (fixed_size_chunks n xs) \<Longrightarrow> 0 < length c \<and> length c \<le> n"
  by (induction n xs rule: fixed_size_chunks.induct)
     (subst (asm) (2) fixed_size_chunks.simps, auto split: if_splits)

lemma chunk_full:
  "c \<in> set (butlast (fixed_size_chunks n xs)) \<Longrightarrow> length c = n"
proof (induction n xs rule: fixed_size_chunks.induct)
  case (1 n xs)
  show ?case
  proof (cases "n = 0 \<or> xs = []")
    case True
    with "1.prems" show ?thesis by (simp add: fixed_size_chunks.simps)
  next
    case False
    then have unfold: "fixed_size_chunks n xs = take n xs # fixed_size_chunks n (drop n xs)"
      by (subst fixed_size_chunks.simps) simp
    show ?thesis
    proof (cases "fixed_size_chunks n (drop n xs) = []")
      case True
      with "1.prems" unfold show ?thesis by simp
    next
      case rest: False
      then have "drop n xs \<noteq> []"
        by (subst (asm) fixed_size_chunks.simps) (simp split: if_splits)
      then have "length (take n xs) = n" by simp
      with "1.prems" "1.IH" False rest unfold show ?thesis by auto
    qed
  qed
qed

lemma foldl_update: "foldl sha1_update hash_alg bufs = hash_alg @ concat bufs"
  by (induction bufs arbitrary: hash_alg) (simp_all add: sha1_update_def)

lemma hash_loop_chunks:
  "0 < n \<Longrightarrow>
   hash_loop n hash_alg f buf =
     Inr (if buf = [] then hash_alg
          else foldl sha1_update (sha1_update hash_alg buf)
                 (fixed_size_chunks (nat n) (drop (pos f) (contents f))))"
proof (induction n hash_alg f buf rule: hash_loop.induct)
  case (1 n hash_alg f buf)
  show ?case
  proof (cases "buf = []")
    case True
    then show ?thesis by (subst hash_loop.simps) simp
  next
    case False
    define rest where "rest = drop (pos f) (contents f)"
    define buf' where "buf' = take (nat n) rest"
    define f' where "f' = f\<lparr>pos := pos f + length buf'\<rparr>"
    have rd: "file_read n f = Inr (buf', f')"
      using "1.prems" by (simp add: file_read_def Let_def rest_def buf'_def f'_def)
    have rest': "drop (pos f') (contents f') = drop (nat n) rest"
      by (auto simp: f'_def buf'_def rest_def min_def add.commute)
    have step: "hash_loop n hash_alg f buf = hash_loop n (sha1_update hash_alg buf) f' buf'"
      using False rd by (subst hash_loop.simps) simp
    have IH: "hash_loop n (sha1_update hash_alg buf) f' buf' =
       Inr (if buf' = [] then sha1_update hash_alg buf
            else foldl sha1_update (sha1_update (sha1_update hash_alg buf) buf')
                   (fixed_size_chunks (nat n) (drop (pos f') (contents f'))))"
      using "1.IH" [OF _ rd refl "1.prems"] False by simp
    have "foldl sha1_update (sha1_update hash_alg buf) (fixed_size_chunks (nat n) rest) =
       (if buf' = [] then sha1_update hash_alg buf
        else foldl sha1_update (sha1_update (sha1_update hash_alg buf) buf')
               (fixed_size_chunks (nat n) (drop (nat n) rest)))"
      using "1.prems" by (subst fixed_size_chunks.simps) (auto simp: buf'_def)
    with step IH rest' False show ?thesis
      by (simp add: rest_def)
  qed
qed

text \<open>
  Claim C9. For a file that exists and a positive buffer size, \<^verbatim>\<open>hash_file_sha1\<close> returns
  the digest of the whole contents; it is the fold of \<^verbatim>\<open>update\<close> over the successive chunks
  of that size, which together are the contents and are all of that size but the last;
  and the result is the same for every other positive buffer size.
\<close>

theorem hash_file_sha1_whole_file:
  assumes "fs file_target = Some bs" and "0 < buffer_size"
  shows "hash_file_sha1 H fs file_target buffer_size = Inr (H bs)
       \<and> hash_file_sha1 H fs file_target buffer_size
           = Inr (sha1_hexdigest H (foldl sha1_update sha1 (fixed_size_chunks (nat buffer_size) bs)))
       \<and> concat (fixed_size_chunks (nat buffer_size) bs) = bs
       \<and> (\<forall>c \<in> set (butlast (fixed_size_chunks (nat buffer_size) bs)). int (length c) = buffer_size)
       \<and> (0 < other_size \<longrightarrow>
            hash_file_sha1 H fs file_target other_size = hash_file_sha1 H fs file_target buffer_size)"
proof -
  have chunked: "hash_file_sha1 H fs file_target n
      = Inr (sha1_hexdigest H (foldl sha1_update sha1 (fixed_size_chunks (nat n) bs)))"
    if "0 < n" for n
  proof -
    let ?f = "\<lparr>contents = bs, pos = 0\<rparr>"
    define buf where "buf = take (nat n) bs"
    define f' where "f' = \<lparr>contents = bs, pos = length buf\<rparr>"
    have rd: "file_read n ?f = Inr (buf, f')"
      using that by (simp add: file_read_def Let_def buf_def f'_def)
    have buf: "buf = take (nat n) bs" and f': "drop (pos f') (contents f') = drop (nat n) bs"
      by (auto simp: buf_def f'_def min_def)
    have "hash_loop n sha1 f' buf = Inr (foldl sha1_update sha1 (fixed_size_chunks (nat n) bs))"
      using that by (subst fixed_size_chunks.simps) (auto simp: hash_loop_chunks buf f')
    with rd assms(1) show ?thesis
      by (simp add: hash_file_sha1_def open_rb_def)
  qed
  have whole: "hash_file_sha1 H fs file_target n = Inr (H bs)" if "0 < n" for n
    using that by (simp add: chunked foldl_update concat_chunks sha1_hexdigest_def sha1_def)
  from assms(2) show ?thesis
    using chunked [of buffer_size] whole [of buffer_size] whole [of other_size]
    by (auto simp: concat_chunks dest: chunk_full)
qed


theorem hash_file_sha1_whole_file_witness:
  "[''f'' \<mapsto> [1, 2, 3, 4, 5 :: byte]] ''f'' = Some [1, 2, 3, 4, 5]
   \<and> (0::int) < 2
   \<and> hash_file_sha1 (map (\<lambda>b. if b = 1 then CHR ''a'' else CHR ''b''))
         [''f'' \<mapsto> [1, 2, 3, 4, 5]] ''f'' 2 = Inr ''abbbb''
   \<and> fixed_size_chunks 2 [1, 2, 3, 4, 5 :: byte] = [[1, 2], [3, 4], [5]]
   \<and> hash_file_sha1 (map (\<lambda>b. if b = 1 then CHR ''a'' else CHR ''b''))
         [''f'' \<mapsto> [1, 2, 3, 4, 5]] ''f'' 3
       = hash_file_sha1 (map (\<lambda>b. if b = 1 then CHR ''a'' else CHR ''b''))
           [''f'' \<mapsto> [1, 2, 3, 4, 5]] ''f'' 2"
proof -
  have present: "[''f'' \<mapsto> [1, 2, 3, 4, 5 :: byte]] ''f'' = Some [1, 2, 3, 4, 5]"
    by simp
  have positive: "(0::int) < 2"
    by simp
  have chunks: "fixed_size_chunks 2 [1, 2, 3, 4, 5 :: byte] = [[1, 2], [3, 4], [5]]"
    by (simp add: fixed_size_chunks.simps)
  from hash_file_sha1_whole_file
         [where fs = "[''f'' \<mapsto> [1, 2, 3, 4, 5 :: byte]]" and file_target = "''f''"
            and bs = "[1, 2, 3, 4, 5]" and buffer_size = 2 and other_size = 3
            and H = "map (\<lambda>b. if b = 1 then CHR ''a'' else CHR ''b'')",
          OF present positive]
       present chunks
  show ?thesis
    by simp
qed

section \<open>The default lists of the path helpers\<close>

lemma alloc_fresh: "alloc v st = (a, st') \<Longrightarrow> a = length st \<and> st' = st @ [v]"
  by (auto simp: alloc_def)

lemma path_split_at_grows:
  "\<exists>ys. snd (path_split_at p rest st) = st @ ys
        \<and> fst (path_split_at p rest st) < length (st @ ys)"
proof (induction p rest st rule: path_split_at.induct)
  case (1 p rest st)
  obtain h t where sp: "osp_split p = (h, t)"
    by (cases "osp_split p")
  show ?case
  proof (cases "length h < 1 \<or> length t < 1")
    case True
    with sp show ?thesis
      by (subst (1 2) path_split_at.simps) (auto simp: alloc_def)
  next
    case False
    obtain a st' where al: "alloc ([t] @ st ! rest) st = (a, st')"
      by (cases "alloc ([t] @ st ! rest) st")
    from "1.IH" [OF sp [symmetric] _ _ al [symmetric]] False
    obtain ys where "snd (path_split_at h a st') = st' @ ys"
      and "fst (path_split_at h a st') < length (st' @ ys)"
      by auto
    moreover have "path_split_at p rest st = path_split_at h a st'"
      using sp al False by (subst path_split_at.simps) simp
    moreover have "st' = st @ [[t] @ st ! rest]"
      using al by (simp add: alloc_def)
    ultimately show ?thesis
      by (metis append.assoc)
  qed
qed

lemma path_split_at_value:
  "st ! rest = st' ! rest' \<Longrightarrow>
   path_split_value (path_split_at p rest st) = path_split_value (path_split_at p rest' st')"
proof (induction p rest st arbitrary: rest' st' rule: path_split_at.induct)
  case (1 p rest st)
  obtain h t where sp: "osp_split p = (h, t)"
    by (cases "osp_split p")
  show ?case
  proof (cases "length h < 1 \<or> length t < 1")
    case True
    with sp "1.prems" show ?thesis
      by (subst (1 2) path_split_at.simps) (auto simp: alloc_def path_split_value_def)
  next
    case False
    let ?v = "[t] @ st ! rest"
    have left: "path_split_at p rest st = path_split_at h (length st) (st @ [?v])"
      using sp False by (subst path_split_at.simps) (simp add: alloc_def)
    have right: "path_split_at p rest' st' = path_split_at h (length st') (st' @ [?v])"
      using sp False "1.prems" by (subst path_split_at.simps) (simp add: alloc_def)
    have "path_split_value (path_split_at h (length st) (st @ [?v]))
        = path_split_value (path_split_at h (length st') (st' @ [?v]))"
      using False by (intro "1.IH" [OF sp [symmetric]]) (auto simp: alloc_def)
    with left right show ?thesis
      by simp
  qed
qed

lemma common_path_at_grows:
  "\<exists>ys. snd (common_path_at l1 l2 common st) = st @ ys"
proof (induction l1 l2 common st rule: common_path_at.induct)
  case (1 l1 l2 common st)
  show ?case
  proof (cases "length l1 = 0 \<or> length l2 = 0 \<or> hd l1 \<noteq> hd l2")
    case True
    then show ?thesis
      by (subst common_path_at.simps) auto
  next
    case False
    let ?v = "st ! common @ [hd l1]"
    have "common_path_at l1 l2 common st = common_path_at (tl l1) (tl l2) (length st) (st @ [?v])"
      using False by (subst common_path_at.simps) (simp add: alloc_def)
    moreover from "1.IH" [of "length st" "st @ [?v]"] False
    obtain ys where "snd (common_path_at (tl l1) (tl l2) (length st) (st @ [?v])) = (st @ [?v]) @ ys"
      by (auto simp: alloc_def)
    ultimately show ?thesis
      by (metis append.assoc)
  qed
qed

lemma common_path_at_value:
  "st ! common = st' ! common' \<Longrightarrow>
   common_path_value (common_path_at l1 l2 common st)
     = common_path_value (common_path_at l1 l2 common' st')"
proof (induction l1 l2 common st arbitrary: common' st' rule: common_path_at.induct)
  case (1 l1 l2 common st)
  show ?case
  proof (cases "length l1 = 0 \<or> length l2 = 0 \<or> hd l1 \<noteq> hd l2")
    case True
    with "1.prems" show ?thesis
      by (subst (1 2) common_path_at.simps) (auto simp: common_path_value_def)
  next
    case False
    let ?v = "st ! common @ [hd l1]"
    have left: "common_path_at l1 l2 common st
        = common_path_at (tl l1) (tl l2) (length st) (st @ [?v])"
      using False by (subst common_path_at.simps) (simp add: alloc_def)
    have right: "common_path_at l1 l2 common' st'
        = common_path_at (tl l1) (tl l2) (length st') (st' @ [?v])"
      using False "1.prems" by (subst common_path_at.simps) (simp add: alloc_def)
    have "common_path_value (common_path_at (tl l1) (tl l2) (length st) (st @ [?v]))
        = common_path_value (common_path_at (tl l1) (tl l2) (length st') (st' @ [?v]))"
      using False by (intro "1.IH") (auto simp: alloc_def)
    with left right show ?thesis
      by simp
  qed
qed

lemma grows_intact: "defaults_intact st \<Longrightarrow> defaults_intact (st @ ys)"
  by (auto simp: defaults_intact_def path_split_rest_default_def common_path_common_default_def
      nth_append)

lemma path_call_store_grows: "\<exists>ys. path_call_store c st = st @ ys"
proof (cases c)
  case (Path_split p)
  then show ?thesis
    using path_split_at_grows [of p path_split_rest_default st]
    by (auto simp: path_split_def)
next
  case (Path_split_with p rest)
  then show ?thesis
    using path_split_at_grows [of p "length st" "st @ [rest]"]
    by (auto simp: path_split_with_def alloc_def)
next
  case (Common_path l1 l2)
  then show ?thesis
    using common_path_at_grows [of l1 l2 common_path_common_default st]
    by (auto simp: common_path_def)
next
  case (Common_path_with l1 l2 common)
  then show ?thesis
    using common_path_at_grows [of l1 l2 "length st" "st @ [common]"]
    by (auto simp: common_path_with_def alloc_def)
qed

lemma run_path_calls_intact:
  "defaults_intact st \<Longrightarrow> defaults_intact (run_path_calls calls st)"
proof (induction calls arbitrary: st)
  case Nil
  then show ?case by simp
next
  case (Cons c calls)
  from path_call_store_grows [of c st] obtain ys where "path_call_store c st = st @ ys"
    by blast
  with Cons show ?case
    by (simp add: grows_intact)
qed

lemma import_intact: "defaults_intact paths_import"
  by (simp add: defaults_intact_def paths_import_def path_split_rest_default_def
      common_path_common_default_def)

text \<open>
  Claim C10. After any sequence of calls of \<^verbatim>\<open>_path_split\<close> and \<^verbatim>\<open>_common_path\<close>, with or
  without the accumulator argument, both default lists are still empty; hence a call that
  omits the accumulator returns what the call with an explicit empty list returns, and
  what the same call returned right after the module was imported.
\<close>

theorem default_lists_never_mutated:
  "run_path_calls calls paths_import ! path_split_rest_default = []
   \<and> run_path_calls calls paths_import ! common_path_common_default = []
   \<and> path_split_value (path_split p (run_path_calls calls paths_import))
       = path_split_value (path_split_with p [] (run_path_calls calls paths_import))
   \<and> common_path_value (common_path l1 l2 (run_path_calls calls paths_import))
       = common_path_value (common_path_with l1 l2 [] (run_path_calls calls paths_import))
   \<and> path_split_value (path_split p (run_path_calls calls paths_import))
       = path_split_value (path_split p paths_import)
   \<and> common_path_value (common_path l1 l2 (run_path_calls calls paths_import))
       = common_path_value (common_path l1 l2 paths_import)"
proof -
  let ?st = "run_path_calls calls paths_import"
  have intact: "defaults_intact ?st"
    using import_intact by (rule run_path_calls_intact)
  then have rest: "?st ! path_split_rest_default = []"
    and common: "?st ! common_path_common_default = []"
    by (simp_all add: defaults_intact_def)
  have rest0: "paths_import ! path_split_rest_default = []"
    and common0: "paths_import ! common_path_common_default = []"
    using import_intact by (simp_all add: defaults_intact_def)
  have "path_split_value (path_split p ?st) = path_split_value (path_split_with p [] ?st)"
    unfolding path_split_def path_split_with_def alloc_def prod.case
    by (rule path_split_at_value) (simp add: rest)
  moreover have "common_path_value (common_path l1 l2 ?st)
      = common_path_value (common_path_with l1 l2 [] ?st)"
    unfolding common_path_def common_path_with_def alloc_def prod.case
    by (rule common_path_at_value) (simp add: common)
  moreover have "path_split_value (path_split p ?st) = path_split_value (path_split p paths_import)"
    unfolding path_split_def
    by (rule path_split_at_value) (simp add: rest rest0)
  moreover have "common_path_value (common_path l1 l2 ?st)
      = common_path_value (common_path l1 l2 paths_import)"
    unfolding common_path_def
    by (rule common_path_at_value) (simp add: common common0)
  ultimately show ?thesis
    using rest common by simp
qed


text \<open>
  The list that \<^verbatim>\<open>_common_path\<close> returns as \<open>common\<close> when nothing is common is the default
  object itself, not a copy; the helpers and their caller \<^verbatim>\<open>relative_path\<close> only read it.
\<close>

lemma common_path_returns_default_object:
  "length l1 = 0 \<or> length l2 = 0 \<or> hd l1 \<noteq> hd l2 \<Longrightarrow>
   common_path l1 l2 st = ((common_path_common_default, l1, l2), st)"
  unfolding common_path_def by (subst common_path_at.simps) auto

theorem default_lists_never_mutated_witness:
  "path_split_value (path_split ''a/b''
      (run_path_calls [Path_split ''x/y'', Common_path [''a''] [''a''], Path_split ''/''] paths_import))
     = [''a'', ''b'']
   \<and> path_split_value (path_split_with ''a/b'' []
      (run_path_calls [Path_split ''x/y'', Common_path [''a''] [''a''], Path_split ''/''] paths_import))
     = [''a'', ''b'']
   \<and> common_path_value (common_path [''a'', ''b''] [''a'', ''c'']
      (run_path_calls [Path_split ''x/y'', Common_path [''a''] [''a''], Path_split ''/''] paths_import))
     = ([''a''], [''b''], [''c''])
   \<and> common_path_value (common_path_with [''a'', ''b''] [''a'', ''c''] []
      (run_path_calls [Path_split ''x/y'', Common_path [''a''] [''a''], Path_split ''/''] paths_import))
     = ([''a''], [''b''], [''c''])"
proof -
  have split_ab: "path_split_value (path_split ''a/b'' paths_import) = [''a'', ''b'']"
    by (simp add: path_split_def path_split_at.simps osp_split_def alloc_def paths_import_def
        path_split_rest_default_def path_split_value_def)
  have common_ab: "common_path_value (common_path [''a'', ''b''] [''a'', ''c''] paths_import)
      = ([''a''], [''b''], [''c''])"
    by (simp add: common_path_def common_path_at.simps alloc_def paths_import_def
        common_path_common_default_def common_path_value_def)
  let ?st = "run_path_calls [Path_split ''x/y'', Common_path [''a''] [''a''], Path_split ''/'']
              paths_import"
  note intact = default_lists_never_mutated
         [of "[Path_split ''x/y'', Common_path [''a''] [''a''], Path_split ''/'']"
             "''a/b''" "[''a'', ''b'']" "[''a'', ''c'']"]
  from intact split_ab have "path_split_value (path_split ''a/b'' ?st) = [''a'', ''b'']"
    and "path_split_value (path_split_with ''a/b'' [] ?st) = [''a'', ''b'']"
    by metis+
  moreover from intact common_ab
  have "common_path_value (common_path [''a'', ''b''] [''a'', ''c''] ?st)
          = ([''a''], [''b''], [''c''])"
    and "common_path_value (common_path_with [''a'', ''b''] [''a'', ''c''] [] ?st)
          = ([''a''], [''b''], [''c''])"
    by metis+
  ultimately show ?thesis
    by (simp only: simp_thms)
qed

end
